theory Spec2Isabelle
  imports Main "HOL-Library.Word"
begin

section \<open>JavaScript strings\<close>

text \<open>
  The program is TypeScript running on Node.js. A JavaScript string is a sequence of
  UTF-16 code units, so a string is modelled as a list of 16-bit words; \<open>length\<close> is
  the \<^verbatim>\<open>.length\<close> of the source. ASCII literals of the source are written with
  \<open>asc\<close>; the Chinese message literals are written out as their code units.
\<close>

type_synonym jschar = "16 word"
type_synonym jsstring = "jschar list"

definition asc :: "string \<Rightarrow> jsstring" where
  "asc s = map (\<lambda>c. of_nat (of_char c)) s"

text \<open>
  The characters matched by \<^verbatim>\<open>\s\<close> in a regular expression without the unicode flag, which
  are also the characters removed by \<^verbatim>\<open>String.prototype.trim\<close>: the ECMAScript WhiteSpace
  and LineTerminator productions.
\<close>

definition is_space :: "jschar \<Rightarrow> bool" where
  "is_space c \<longleftrightarrow>
     c = 0x09 \<or> c = 0x0A \<or> c = 0x0B \<or> c = 0x0C \<or> c = 0x0D \<or> c = 0x20 \<or> c = 0xA0 \<or>
     c = 0x1680 \<or> (0x2000 \<le> c \<and> c \<le> 0x200A) \<or> c = 0x2028 \<or> c = 0x2029 \<or>
     c = 0x202F \<or> c = 0x205F \<or> c = 0x3000 \<or> c = 0xFEFF"

text \<open>The characters matched by \<^verbatim>\<open>\w\<close>: \<^verbatim>\<open>[A-Za-z0-9_]\<close>.\<close>

definition is_word :: "jschar \<Rightarrow> bool" where
  "is_word c \<longleftrightarrow>
     (0x30 \<le> c \<and> c \<le> 0x39) \<or> (0x41 \<le> c \<and> c \<le> 0x5A) \<or> (0x61 \<le> c \<and> c \<le> 0x7A) \<or> c = 0x5F"

text \<open>\<^verbatim>\<open>s.trim()\<close>: white space removed from both ends.\<close>

definition trim :: "jsstring \<Rightarrow> jsstring" where
  "trim s = rev (dropWhile is_space (rev (dropWhile is_space s)))"

text \<open>
  \<^verbatim>\<open>s.match(/c/g)\<close> for a one-character pattern: \<^verbatim>\<open>null\<close> when nothing matches,
  otherwise the array of all matches.
\<close>

definition match_all_char :: "jschar \<Rightarrow> jsstring \<Rightarrow> jschar list option" where
  "match_all_char c s = (let ms = filter (\<lambda>x. x = c) s in if ms = [] then None else Some ms)"

section \<open>FofaService.validateQuery\<close>

text \<open>
  \<^verbatim>\<open>
  private validateQuery(query: string): boolean {
    if (!query || query.trim().length === 0) { return false; }
    const hasValidSyntax = /[=:]/.test(query) || /\w+/.test(query);
    const quotes = query.match(/"/g);
    const quotesBalanced = !quotes || quotes.length % 2 === 0;
    const openParens = (query.match(/\(/g) || []).length;
    const closeParens = (query.match(/\)/g) || []).length;
    const parensBalanced = openParens === closeParens;
    return hasValidSyntax && quotesBalanced && parensBalanced;
  }
  \<close>
  \<^verbatim>\<open>!query\<close> on a string holds exactly for the empty string. \<^verbatim>\<open>/[=:]/.test\<close> looks for
  one of the two characters anywhere, \<^verbatim>\<open>/\w+/.test\<close> for a non-empty run of word
  characters anywhere, that is for one word character. None of the operations used can
  throw on a string argument, so the function has no error branch.
\<close>

definition validateQuery :: "jsstring \<Rightarrow> bool" where
  "validateQuery query =
     (if query = [] \<or> length (trim query) = 0 then False
      else
        let hasValidSyntax =
              (list_ex (\<lambda>c. c = 0x3D \<or> c = 0x3A) query \<or> list_ex is_word query);
            quotes = match_all_char 0x22 query;
            quotesBalanced = (case quotes of None \<Rightarrow> True | Some qs \<Rightarrow> length qs mod 2 = 0);
            openParens = length (case match_all_char 0x28 query of None \<Rightarrow> [] | Some ms \<Rightarrow> ms);
            closeParens = length (case match_all_char 0x29 query of None \<Rightarrow> [] | Some ms \<Rightarrow> ms);
            parensBalanced = (openParens = closeParens)
        in hasValidSyntax \<and> quotesBalanced \<and> parensBalanced)"

section \<open>String operations used by the translation client\<close>

text \<open>\<^verbatim>\<open>s.startsWith(p)\<close> and \<^verbatim>\<open>s.includes(needle)\<close>.\<close>

fun startsWith :: "jsstring \<Rightarrow> jsstring \<Rightarrow> bool" where
  "startsWith s [] = True"
| "startsWith [] (p # ps) = False"
| "startsWith (c # cs) (p # ps) = (c = p \<and> startsWith cs ps)"

fun includes_str :: "jsstring \<Rightarrow> jsstring \<Rightarrow> bool" where
  "includes_str [] needle = (needle = [])"
| "includes_str (c # cs) needle = (startsWith (c # cs) needle \<or> includes_str cs needle)"

text \<open>\<^verbatim>\<open>text.split("\n")\<close>: the pieces between line feeds; never the empty array.\<close>

fun split_newline :: "jsstring \<Rightarrow> jsstring list" where
  "split_newline [] = [[]]"
| "split_newline (c # cs) =
     (if c = 0x0A then [] # split_newline cs
      else (case split_newline cs of [] \<Rightarrow> [[c]] | l # ls \<Rightarrow> (c # l) # ls))"

subsection \<open>The regular expressions of the source\<close>

text \<open>
  The patterns of the source are matched by a backtracking engine, leftmost start first,
  each quantifier greedy. In every pattern used here a quantified class is followed by a
  character outside that class (\<^verbatim>\<open>\s*\<close> by \<^verbatim>\<open>:\<close>, \<^verbatim>\<open>"\<close> or a backquote, \<^verbatim>\<open>[^"]+\<close> by
  \<^verbatim>\<open>"\<close>), so at a given start only the longest run can lead to a match and backtracking
  into the run never succeeds. Each pattern is therefore a function of the start position,
  and \<^verbatim>\<open>match\<close> is the first start position at which it succeeds.
\<close>

text \<open>\<^verbatim>\<open>"([^"]+)"\<close> at the start of \<open>s\<close>: the captured group.\<close>

definition quoted_at :: "jsstring \<Rightarrow> jsstring option" where
  "quoted_at s =
     (case s of
        [] \<Rightarrow> None
      | c # r \<Rightarrow>
          if c \<noteq> 0x22 then None
          else let g = takeWhile (\<lambda>x. x \<noteq> 0x22) r; after = dropWhile (\<lambda>x. x \<noteq> 0x22) r
               in if g = [] \<or> after = [] then None else Some g)"

text \<open>\<^verbatim>\<open>:\s*"([^"]+)"\<close> at the start of \<open>s\<close>.\<close>

definition colon_quoted_at :: "jsstring \<Rightarrow> jsstring option" where
  "colon_quoted_at s =
     (case s of
        [] \<Rightarrow> None
      | c # r \<Rightarrow> if c = 0x3A then quoted_at (dropWhile is_space r) else None)"

text \<open>\<^verbatim>\<open>"key"\s*:\s*"([^"]+)"\<close> at the start of \<open>s\<close>.\<close>

fun strip_literal :: "jsstring \<Rightarrow> jsstring \<Rightarrow> jsstring option" where
  "strip_literal [] s = Some s"
| "strip_literal (p # ps) [] = None"
| "strip_literal (p # ps) (c # cs) = (if c = p then strip_literal ps cs else None)"

definition key_value_at :: "jsstring \<Rightarrow> jsstring \<Rightarrow> jsstring option" where
  "key_value_at key s =
     (case strip_literal ([0x22] @ key @ [0x22]) s of
        None \<Rightarrow> None
      | Some r \<Rightarrow> colon_quoted_at (dropWhile is_space r))"

text \<open>The first start position, from the left, at which a pattern matches.\<close>

fun first_match :: "(jsstring \<Rightarrow> 'a option) \<Rightarrow> jsstring \<Rightarrow> 'a option" where
  "first_match m [] = m []"
| "first_match m (c # cs) = (case m (c # cs) of Some g \<Rightarrow> Some g | None \<Rightarrow> first_match m cs)"

text \<open>
  \<^verbatim>\<open>text.match(/"fofa_query"\s*:\s*"([^"]+)"/)\<close> (and the same for \<^verbatim>\<open>explanation\<close>), and
  \<^verbatim>\<open>line.match(/:\s*"([^"]+)"/)\<close>; the result is \<^verbatim>\<open>match[1]\<close>, or \<open>None\<close> for \<^verbatim>\<open>null\<close>.
\<close>

definition match_key_value :: "jsstring \<Rightarrow> jsstring \<Rightarrow> jsstring option" where
  "match_key_value key text = first_match (key_value_at key) text"

definition match_colon_quoted :: "jsstring \<Rightarrow> jsstring option" where
  "match_colon_quoted line = first_match colon_quoted_at line"

text \<open>
  \<^verbatim>\<open>s.replace(/^```json\s*/, "")\<close> and \<^verbatim>\<open>s.replace(/^```\s*/, "")\<close>, with the fence literal as
  the first argument; \<^verbatim>\<open>s.replace(/\s*```$/, "")\<close>: the match starts where the white space
  before a final fence starts.
\<close>

definition replace_opening_fence :: "jsstring \<Rightarrow> jsstring \<Rightarrow> jsstring" where
  "replace_opening_fence fence s =
     (case strip_literal fence s of None \<Rightarrow> s | Some r \<Rightarrow> dropWhile is_space r)"

definition replace_closing_fence :: "jsstring \<Rightarrow> jsstring" where
  "replace_closing_fence s =
     (case strip_literal (asc ''```'') (rev s) of
        None \<Rightarrow> s
      | Some r \<Rightarrow> rev (dropWhile is_space r))"

section \<open>Values produced by JSON.parse\<close>

text \<open>
  A parsed JSON value. A number keeps the literal it was read from; an object keeps its
  members in source order, and reading a property takes the last member with that name,
  as \<^verbatim>\<open>JSON.parse\<close> lets a later duplicate overwrite an earlier one. A JavaScript value
  that may also be \<^verbatim>\<open>undefined\<close> is a \<open>json option\<close>, with \<open>None\<close> for \<^verbatim>\<open>undefined\<close>.
\<close>

datatype json =
    JNull
  | JBool bool
  | JNumber jsstring
  | JString jsstring
  | JArray "json list"
  | JObject "(jsstring \<times> json) list"

type_synonym jsval = "json option"

subsection \<open>The JSON grammar: tokens\<close>

datatype token =
    TLBrace | TRBrace | TLBrack | TRBrack | TColon | TComma
  | TStr jsstring | TNum jsstring | TTrue | TFalse | TNull

datatype numstate = NMinus | NZero | NInt | NDot | NFrac | NExp | NExpSign | NExpDigits

datatype lstate =
    LIdle
  | LStr jsstring
  | LEsc jsstring
  | LUni jsstring nat jschar
  | LNum numstate jsstring
  | LLit jsstring token

definition is_digit :: "jschar \<Rightarrow> bool" where
  "is_digit c \<longleftrightarrow> 0x30 \<le> c \<and> c \<le> 0x39"

definition num_accepting :: "numstate \<Rightarrow> bool" where
  "num_accepting ns \<longleftrightarrow> ns = NZero \<or> ns = NInt \<or> ns = NFrac \<or> ns = NExpDigits"

text \<open>\<^verbatim>\<open>-?(0|[1-9][0-9]*)(\.[0-9]+)?([eE][+-]?[0-9]+)?\<close>, one character at a time.\<close>

fun num_step :: "numstate \<Rightarrow> jschar \<Rightarrow> numstate option" where
  "num_step NMinus c = (if c = 0x30 then Some NZero else if is_digit c then Some NInt else None)"
| "num_step NZero c =
     (if c = 0x2E then Some NDot else if c = 0x65 \<or> c = 0x45 then Some NExp else None)"
| "num_step NInt c =
     (if is_digit c then Some NInt else if c = 0x2E then Some NDot
      else if c = 0x65 \<or> c = 0x45 then Some NExp else None)"
| "num_step NDot c = (if is_digit c then Some NFrac else None)"
| "num_step NFrac c =
     (if is_digit c then Some NFrac else if c = 0x65 \<or> c = 0x45 then Some NExp else None)"
| "num_step NExp c =
     (if c = 0x2B \<or> c = 0x2D then Some NExpSign else if is_digit c then Some NExpDigits else None)"
| "num_step NExpSign c = (if is_digit c then Some NExpDigits else None)"
| "num_step NExpDigits c = (if is_digit c then Some NExpDigits else None)"

text \<open>The character an escape stands for: \<^verbatim>\<open>\" \\ \/ \b \f \n \r \t\<close>.\<close>

definition escape_char :: "jschar \<Rightarrow> jschar option" where
  "escape_char c =
     (if c = 0x22 then Some 0x22 else if c = 0x5C then Some 0x5C else if c = 0x2F then Some 0x2F
      else if c = 0x62 then Some 0x08 else if c = 0x66 then Some 0x0C
      else if c = 0x6E then Some 0x0A else if c = 0x72 then Some 0x0D
      else if c = 0x74 then Some 0x09 else None)"

definition hex_value :: "jschar \<Rightarrow> jschar option" where
  "hex_value c =
     (if 0x30 \<le> c \<and> c \<le> 0x39 then Some (c - 0x30)
      else if 0x41 \<le> c \<and> c \<le> 0x46 then Some (c - 0x41 + 10)
      else if 0x61 \<le> c \<and> c \<le> 0x66 then Some (c - 0x61 + 10)
      else None)"

text \<open>A character read between tokens. JSON white space is tab, line feed, carriage return and space only.\<close>

definition lex_idle :: "jschar \<Rightarrow> token list \<Rightarrow> (lstate \<times> token list) option" where
  "lex_idle c toks =
     (if c = 0x20 \<or> c = 0x09 \<or> c = 0x0A \<or> c = 0x0D then Some (LIdle, toks)
      else if c = 0x7B then Some (LIdle, TLBrace # toks)
      else if c = 0x7D then Some (LIdle, TRBrace # toks)
      else if c = 0x5B then Some (LIdle, TLBrack # toks)
      else if c = 0x5D then Some (LIdle, TRBrack # toks)
      else if c = 0x3A then Some (LIdle, TColon # toks)
      else if c = 0x2C then Some (LIdle, TComma # toks)
      else if c = 0x22 then Some (LStr [], toks)
      else if c = 0x2D then Some (LNum NMinus [c], toks)
      else if c = 0x30 then Some (LNum NZero [c], toks)
      else if is_digit c then Some (LNum NInt [c], toks)
      else if c = 0x74 then Some (LLit (asc ''rue'') TTrue, toks)
      else if c = 0x66 then Some (LLit (asc ''alse'') TFalse, toks)
      else if c = 0x6E then Some (LLit (asc ''ull'') TNull, toks)
      else None)"

text \<open>
  One character of input. The tokens read so far are kept newest first, and so are the
  characters of the string or number being read. A raw control character inside a string
  is an error.
\<close>

fun lex_step :: "lstate \<times> token list \<Rightarrow> jschar \<Rightarrow> (lstate \<times> token list) option" where
  "lex_step (LIdle, toks) c = lex_idle c toks"
| "lex_step (LStr a, toks) c =
     (if c = 0x22 then Some (LIdle, TStr (rev a) # toks)
      else if c = 0x5C then Some (LEsc a, toks)
      else if c < 0x20 then None
      else Some (LStr (c # a), toks))"
| "lex_step (LEsc a, toks) c =
     (case escape_char c of
        Some e \<Rightarrow> Some (LStr (e # a), toks)
      | None \<Rightarrow> if c = 0x75 then Some (LUni a 0 0, toks) else None)"
| "lex_step (LUni a n v, toks) c =
     (case hex_value c of
        None \<Rightarrow> None
      | Some h \<Rightarrow>
          if n = 3 then Some (LStr ((v * 16 + h) # a), toks)
          else Some (LUni a (Suc n) (v * 16 + h), toks))"
| "lex_step (LNum ns a, toks) c =
     (case num_step ns c of
        Some ns' \<Rightarrow> Some (LNum ns' (c # a), toks)
      | None \<Rightarrow> if num_accepting ns then lex_idle c (TNum (rev a) # toks) else None)"
| "lex_step (LLit [] tok, toks) c = None"
| "lex_step (LLit (r # rs) tok, toks) c =
     (if c \<noteq> r then None
      else if rs = [] then Some (LIdle, tok # toks)
      else Some (LLit rs tok, toks))"

fun lex_run :: "lstate \<times> token list \<Rightarrow> jsstring \<Rightarrow> (lstate \<times> token list) option" where
  "lex_run st [] = Some st"
| "lex_run st (c # cs) = (case lex_step st c of None \<Rightarrow> None | Some st' \<Rightarrow> lex_run st' cs)"

fun lex_end :: "lstate \<times> token list \<Rightarrow> token list option" where
  "lex_end (LIdle, toks) = Some (rev toks)"
| "lex_end (LNum ns a, toks) = (if num_accepting ns then Some (rev (TNum (rev a) # toks)) else None)"
| "lex_end (_, toks) = None"

definition tokenize :: "jsstring \<Rightarrow> token list option" where
  "tokenize s = (case lex_run (LIdle, []) s of None \<Rightarrow> None | Some st \<Rightarrow> lex_end st)"

subsection \<open>The JSON grammar: values\<close>

text \<open>
  The values are built by a pushdown automaton over the tokens. A frame is an array or an
  object under construction, newest element first; an object frame also holds the member
  name whose value is being read.
\<close>

datatype frame = FArr "json list" | FObj "(jsstring \<times> json) list" "jsstring option"

datatype pmode =
    MValue
  | MValueOrClose
  | MKey
  | MKeyOrClose
  | MColon
  | MAfter
  | MDone json

text \<open>A complete value goes to the innermost open container, or is the result.\<close>

fun complete :: "json \<Rightarrow> frame list \<Rightarrow> (pmode \<times> frame list) option" where
  "complete v [] = Some (MDone v, [])"
| "complete v (FArr xs # st) = Some (MAfter, FArr (v # xs) # st)"
| "complete v (FObj ms (Some k) # st) = Some (MAfter, FObj ((k, v) # ms) None # st)"
| "complete v (FObj ms None # st) = None"

fun begin_value :: "token \<Rightarrow> frame list \<Rightarrow> (pmode \<times> frame list) option" where
  "begin_value TLBrack st = Some (MValueOrClose, FArr [] # st)"
| "begin_value TLBrace st = Some (MKeyOrClose, FObj [] None # st)"
| "begin_value (TStr s) st = complete (JString s) st"
| "begin_value (TNum n) st = complete (JNumber n) st"
| "begin_value TTrue st = complete (JBool True) st"
| "begin_value TFalse st = complete (JBool False) st"
| "begin_value TNull st = complete JNull st"
| "begin_value _ st = None"

fun close_array :: "frame list \<Rightarrow> (pmode \<times> frame list) option" where
  "close_array (FArr xs # st) = complete (JArray (rev xs)) st"
| "close_array _ = None"

fun close_object :: "frame list \<Rightarrow> (pmode \<times> frame list) option" where
  "close_object (FObj ms None # st) = complete (JObject (rev ms)) st"
| "close_object _ = None"

fun begin_member :: "token \<Rightarrow> frame list \<Rightarrow> (pmode \<times> frame list) option" where
  "begin_member (TStr k) (FObj ms None # st) = Some (MColon, FObj ms (Some k) # st)"
| "begin_member _ _ = None"

fun parse_step :: "pmode \<times> frame list \<Rightarrow> token \<Rightarrow> (pmode \<times> frame list) option" where
  "parse_step (MValue, st) t = begin_value t st"
| "parse_step (MValueOrClose, st) t = (if t = TRBrack then close_array st else begin_value t st)"
| "parse_step (MKey, st) t = begin_member t st"
| "parse_step (MKeyOrClose, st) t = (if t = TRBrace then close_object st else begin_member t st)"
| "parse_step (MColon, st) t = (if t = TColon then Some (MValue, st) else None)"
| "parse_step (MAfter, st) t =
     (if t = TComma then
        (case st of
           FArr xs # _ \<Rightarrow> Some (MValue, st)
         | FObj ms None # _ \<Rightarrow> Some (MKey, st)
         | _ \<Rightarrow> None)
      else if t = TRBrack then close_array st
      else if t = TRBrace then close_object st
      else None)"
| "parse_step (MDone v, st) t = None"

fun parse_run :: "pmode \<times> frame list \<Rightarrow> token list \<Rightarrow> (pmode \<times> frame list) option" where
  "parse_run st [] = Some st"
| "parse_run st (t # ts) = (case parse_step st t of None \<Rightarrow> None | Some st' \<Rightarrow> parse_run st' ts)"

text \<open>
  \<^verbatim>\<open>JSON.parse(text)\<close>: the value, or \<open>None\<close> when a \<^verbatim>\<open>SyntaxError\<close> is thrown. The only
  caller catches the error and does not look at it. Limits of the engine on the size
  or the nesting depth of the text are not modelled.
\<close>

definition JSON_parse :: "jsstring \<Rightarrow> json option" where
  "JSON_parse text =
     (case tokenize text of
        None \<Rightarrow> None
      | Some ts \<Rightarrow>
          (case parse_run (MValue, []) ts of
             Some (MDone v, _) \<Rightarrow> Some v
           | _ \<Rightarrow> None))"

subsection \<open>Reading properties\<close>

text \<open>
  \<^verbatim>\<open>v.name\<close> for the property names the source reads from parsed data
  (\<^verbatim>\<open>fofa_query\<close>, \<^verbatim>\<open>explanation\<close>, \<^verbatim>\<open>candidates\<close>, \<^verbatim>\<open>choices\<close>, \<^verbatim>\<open>content\<close>, \<^verbatim>\<open>parts\<close>,
  \<^verbatim>\<open>text\<close>, \<^verbatim>\<open>message\<close>), none of which a built-in prototype defines, and \<^verbatim>\<open>v[0]\<close>. The outer
  \<open>None\<close> is the \<^verbatim>\<open>TypeError\<close> thrown when \<open>v\<close> is \<^verbatim>\<open>undefined\<close> or \<^verbatim>\<open>null\<close>; on a
  string, a number, a boolean or an array a named property is \<^verbatim>\<open>undefined\<close>.
\<close>

fun get_prop :: "jsval \<Rightarrow> jsstring \<Rightarrow> jsval option" where
  "get_prop None name = None"
| "get_prop (Some JNull) name = None"
| "get_prop (Some (JObject ms)) name = Some (map_of (rev ms) name)"
| "get_prop (Some _) name = Some None"

fun get_index0 :: "jsval \<Rightarrow> jsval option" where
  "get_index0 None = None"
| "get_index0 (Some JNull) = None"
| "get_index0 (Some (JObject ms)) = Some (map_of (rev ms) (asc ''0''))"
| "get_index0 (Some (JArray xs)) = Some (case xs of [] \<Rightarrow> None | x # _ \<Rightarrow> Some x)"
| "get_index0 (Some (JString s)) = Some (case s of [] \<Rightarrow> None | c # _ \<Rightarrow> Some (JString [c]))"
| "get_index0 (Some _) = Some None"

text \<open>
  Whether the number a JSON literal denotes is zero as a double. The literal is the
  integer \<open>m\<close> written by the digits of its mantissa, times ten to the power \<open>e\<close>; the
  nearest double is zero exactly when that magnitude is at most two to the power -1075,
  half the least positive double.
\<close>

definition digits_value :: "jsstring \<Rightarrow> int" where
  "digits_value ds = foldl (\<lambda>n c. 10 * n + uint (c - 0x30)) 0 ds"

definition number_is_zero :: "jsstring \<Rightarrow> bool" where
  "number_is_zero lexeme =
     (let body = (case lexeme of [] \<Rightarrow> [] | c # r \<Rightarrow> if c = 0x2D then r else lexeme);
          no_e = (\<lambda>c. c \<noteq> 0x65 \<and> c \<noteq> 0x45);
          mant = takeWhile no_e body;
          expo = drop 1 (dropWhile no_e body);
          ipart = takeWhile (\<lambda>c. c \<noteq> 0x2E) mant;
          fpart = drop 1 (dropWhile (\<lambda>c. c \<noteq> 0x2E) mant);
          m = digits_value (ipart @ fpart);
          ex = (case expo of
                  [] \<Rightarrow> 0
                | c # r \<Rightarrow>
                    if c = 0x2D then - digits_value r
                    else if c = 0x2B then digits_value r
                    else digits_value expo);
          e = ex - int (length fpart)
      in if 0 \<le> e then m = 0 else m * 2 ^ 1075 \<le> 10 ^ nat (- e))"

text \<open>Truthiness, as \<^verbatim>\<open>&&\<close>, \<^verbatim>\<open>!\<close> and \<^verbatim>\<open>if\<close> test a value.\<close>

fun truthy :: "jsval \<Rightarrow> bool" where
  "truthy None = False"
| "truthy (Some JNull) = False"
| "truthy (Some (JBool b)) = b"
| "truthy (Some (JNumber n)) = (\<not> number_is_zero n)"
| "truthy (Some (JString s)) = (s \<noteq> [])"
| "truthy (Some (JArray xs)) = True"
| "truthy (Some (JObject ms)) = True"

section \<open>LLMService: extracting the answer from the completion text\<close>

text \<open>
  The interface \<^verbatim>\<open>LLMResponse\<close> of the source declares
  \<^verbatim>\<open>fofa_query: string | null\<close> and \<^verbatim>\<open>explanation: string\<close>; \<open>None\<close> is \<^verbatim>\<open>null\<close>.
\<close>

record LLMResponse =
  fofa_query :: "jsstring option"
  explanation :: jsstring

text \<open>
  What \<^verbatim>\<open>convertTextToFofaQuery\<close> returns at run time: on the strict path the two fields
  are whatever the parsed value holds, of any JSON type or \<^verbatim>\<open>undefined\<close>.
\<close>

record RawResponse =
  raw_query :: jsval
  raw_explanation :: jsval

definition as_raw :: "LLMResponse \<Rightarrow> RawResponse" where
  "as_raw r =
     \<lparr>raw_query = (case fofa_query r of None \<Rightarrow> Some JNull | Some q \<Rightarrow> Some (JString q)),
      raw_explanation = Some (JString (explanation r))\<rparr>"

definition msg_unparsable :: jsstring where
  "msg_unparsable = [0x65E0, 0x6CD5, 0x89E3, 0x6790, 0x004C, 0x004C, 0x004D, 0x54CD, 0x5E94]"

definition msg_extracted_default :: jsstring where
  "msg_extracted_default =
     [0x4ECE, 0x6587, 0x672C, 0x4E2D, 0x63D0, 0x53D6, 0x7684, 0x67E5, 0x8BE2]"

subsection \<open>LLMService.extractFromText\<close>

text \<open>
  \<^verbatim>\<open>
  private extractFromText(text: string): LLMResponse {
    try {
      const queryMatch = text.match(/"fofa_query"\s*:\s*"([^"]+)"/);
      const explanationMatch = text.match(/"explanation"\s*:\s*"([^"]+)"/);
      if (queryMatch && explanationMatch) {
        return { fofa_query: queryMatch[1], explanation: explanationMatch[1] };
      }
      const lines = text.split("\n");
      let fofaQuery = null;
      let explanation = "";
      for (const line of lines) {
        if (line.includes("fofa_query") && line.includes(":")) {
          const match = line.match(/:\s*"([^"]+)"/);
          if (match) { fofaQuery = match[1]; }
        }
        if (line.includes("explanation") && line.includes(":")) {
          const match = line.match(/:\s*"([^"]+)"/);
          if (match) { explanation = match[1]; }
        }
      }
      return { fofa_query: fofaQuery, explanation: explanation || "..." };
    } catch (error) {
      return { fofa_query: null, explanation: "..." };
    }
  }
  \<close>
  On a string argument \<^verbatim>\<open>match\<close>, \<^verbatim>\<open>split\<close> and \<^verbatim>\<open>includes\<close> do not throw, so the
  \<^verbatim>\<open>catch\<close> branch is never entered and has no counterpart below.
\<close>

definition scan_line :: "jsstring option \<times> jsstring \<Rightarrow> jsstring \<Rightarrow> jsstring option \<times> jsstring" where
  "scan_line st line =
     (let fofaQuery = fst st;
          explanation = snd st;
          fofaQuery' =
            (if includes_str line (asc ''fofa_query'') \<and> includes_str line (asc '':'') then
               (case match_colon_quoted line of Some m \<Rightarrow> Some m | None \<Rightarrow> fofaQuery)
             else fofaQuery);
          explanation' =
            (if includes_str line (asc ''explanation'') \<and> includes_str line (asc '':'') then
               (case match_colon_quoted line of Some m \<Rightarrow> m | None \<Rightarrow> explanation)
             else explanation)
      in (fofaQuery', explanation'))"

definition extractFromText :: "jsstring \<Rightarrow> LLMResponse" where
  "extractFromText text =
     (let queryMatch = match_key_value (asc ''fofa_query'') text;
          explanationMatch = match_key_value (asc ''explanation'') text
      in case (queryMatch, explanationMatch) of
           (Some q, Some e) \<Rightarrow> \<lparr>fofa_query = Some q, explanation = e\<rparr>
         | _ \<Rightarrow>
             (let lines = split_newline text;
                  st = foldl scan_line (None, []) lines
              in \<lparr>fofa_query = fst st,
                  explanation = (if snd st = [] then msg_extracted_default else snd st)\<rparr>))"

subsection \<open>The parsing block of LLMService.convertTextToFofaQuery\<close>

text \<open>
  \<^verbatim>\<open>
      try {
        let cleanContent = content.trim();
        if (cleanContent.startsWith("```json")) {
          cleanContent = cleanContent.replace(/^```json\s*/, "").replace(/\s*```$/, "");
        } else if (cleanContent.startsWith("```")) {
          cleanContent = cleanContent.replace(/^```\s*/, "").replace(/\s*```$/, "");
        }
        const parsedResponse = JSON.parse(cleanContent);
        return {
          fofa_query: parsedResponse.fofa_query,
          explanation: parsedResponse.explanation,
        };
      } catch (parseError) {
        const fallbackResult = this.extractFromText(content);
        if (fallbackResult.fofa_query) { return fallbackResult; }
        return { fofa_query: null, explanation: "..." };
      }
  \<close>
  \<open>strictParse\<close> is the \<^verbatim>\<open>try\<close> block, with \<open>None\<close> for an exception: the
  \<^verbatim>\<open>SyntaxError\<close> of \<^verbatim>\<open>JSON.parse\<close>, or the \<^verbatim>\<open>TypeError\<close> of reading a property of
  \<^verbatim>\<open>null\<close> when the text is the JSON literal \<^verbatim>\<open>null\<close>. \<open>parseLLMContent\<close> is the whole
  statement, the \<^verbatim>\<open>catch\<close> block being the \<open>None\<close> case.
\<close>

definition cleanContent :: "jsstring \<Rightarrow> jsstring" where
  "cleanContent content =
     (let c = trim content
      in if startsWith c (asc ''```json'') then
           replace_closing_fence (replace_opening_fence (asc ''```json'') c)
         else if startsWith c (asc ''```'') then
           replace_closing_fence (replace_opening_fence (asc ''```'') c)
         else c)"

definition strictParse :: "jsstring \<Rightarrow> RawResponse option" where
  "strictParse content =
     (case JSON_parse (cleanContent content) of
        None \<Rightarrow> None
      | Some parsedResponse \<Rightarrow>
          (case get_prop (Some parsedResponse) (asc ''fofa_query'') of
             None \<Rightarrow> None
           | Some q \<Rightarrow>
               (case get_prop (Some parsedResponse) (asc ''explanation'') of
                  None \<Rightarrow> None
                | Some e \<Rightarrow> Some \<lparr>raw_query = q, raw_explanation = e\<rparr>)))"

definition parseLLMContent :: "jsstring \<Rightarrow> RawResponse" where
  "parseLLMContent content =
     (case strictParse content of
        Some r \<Rightarrow> r
      | None \<Rightarrow>
          (let fallbackResult = extractFromText content
           in if (case fofa_query fallbackResult of None \<Rightarrow> False | Some q \<Rightarrow> q \<noteq> [])
              then as_raw fallbackResult
              else \<lparr>raw_query = Some JNull, raw_explanation = Some (JString msg_unparsable)\<rparr>))"

section \<open>Predicates used to state the properties\<close>

text \<open>
  \<open>captured_in g s\<close>: the string \<open>g\<close> is non-empty, has no double quote, and stands in
  \<open>s\<close> between two double quotes.
\<close>

definition captured_in :: "jsstring \<Rightarrow> jsstring \<Rightarrow> bool" where
  "captured_in g s \<longleftrightarrow> g \<noteq> [] \<and> 0x22 \<notin> set g \<and> (\<exists>a b. s = a @ [0x22] @ g @ [0x22] @ b)"

text \<open>The invariant of the loop over the lines in \<open>extractFromText\<close>.\<close>

definition scan_inv :: "jsstring \<Rightarrow> jsstring option \<times> jsstring \<Rightarrow> bool" where
  "scan_inv text st \<longleftrightarrow>
     (case fst st of None \<Rightarrow> True | Some q \<Rightarrow> captured_in q text) \<and>
     (snd st = [] \<or> captured_in (snd st) text)"

section \<open>Sample completion texts\<close>

text \<open>
  The two lines \<^verbatim>\<open>"fofa_query": "country=\"US\""\<close> and \<^verbatim>\<open>"explanation": "y"\<close>, each
  backslash and quote of the text being one character of the string.
\<close>

definition sample_query_line :: jsstring where
  "sample_query_line =
     asc ''\"fofa_query\": \"country='' @ [0x5C, 0x22] @ asc ''US'' @ [0x5C, 0x22] @ asc ''\"''"

definition sample_explanation_line :: jsstring where
  "sample_explanation_line = asc ''\"explanation\": \"y\"''"

definition sample_two_lines :: jsstring where
  "sample_two_lines = sample_query_line @ [0x0A] @ sample_explanation_line"

text \<open>
  The texts \<^verbatim>\<open>{"fofa_query": null, "explanation": "too vague"}\<close>,
  \<^verbatim>\<open>{"fofa_query":"","explanation":"x"}\<close> and \<^verbatim>\<open>nonsense\<close>.
\<close>

definition sample_null_decision :: jsstring where
  "sample_null_decision = asc ''{\"fofa_query\": null, \"explanation\": \"too vague\"}''"



text \<open>The result of the parsing block when no step recovers a query.\<close>

definition parse_failure_result :: RawResponse where
  "parse_failure_result =
     \<lparr>raw_query = Some JNull, raw_explanation = Some (JString msg_unparsable)\<rparr>"



definition sample_two_lines_reversed :: jsstring where
  "sample_two_lines_reversed = sample_explanation_line @ [0x0A] @ sample_query_line"

section \<open>Thrown values\<close>

text \<open>
  What a \<^verbatim>\<open>catch\<close> clause of the source can receive. \<open>Error m\<close> is an instance of
  \<^verbatim>\<open>Error\<close> with message \<open>m\<close>: a \<^verbatim>\<open>new Error(m)\<close> of the source, or an error object of the
  engine such as a \<^verbatim>\<open>TypeError\<close>. \<open>AxiosError status code m\<close> is an error of the HTTP
  client (\<^verbatim>\<open>axios.isAxiosError\<close> holds, and it is an instance of \<^verbatim>\<open>Error\<close>), with
  \<^verbatim>\<open>error.response?.status\<close>, \<^verbatim>\<open>error.code\<close> and its message. \<open>NonError\<close> is any thrown
  value that is not an instance of \<^verbatim>\<open>Error\<close>.
\<close>

datatype thrown =
    Error jsstring
  | AxiosError "nat option" "jsstring option" jsstring
  | NonError

fun isAxiosError :: "thrown \<Rightarrow> bool" where
  "isAxiosError (AxiosError status code m) = True"
| "isAxiosError _ = False"

fun response_status :: "thrown \<Rightarrow> nat option" where
  "response_status (AxiosError status code m) = status"
| "response_status _ = None"

fun error_code :: "thrown \<Rightarrow> jsstring option" where
  "error_code (AxiosError status code m) = code"
| "error_code _ = None"

definition msg_unknown_error :: jsstring where
  "msg_unknown_error = [0x672A, 0x77E5, 0x9519, 0x8BEF]"

text \<open>\<^verbatim>\<open>error instanceof Error ? error.message : "..."\<close>, the second branch being \<open>msg_unknown_error\<close>.\<close>

fun message_or_unknown :: "thrown \<Rightarrow> jsstring" where
  "message_or_unknown (Error m) = m"
| "message_or_unknown (AxiosError status code m) = m"
| "message_or_unknown NonError = msg_unknown_error"

text \<open>Sequencing of steps that may throw.\<close>

definition and_then :: "thrown + 'a \<Rightarrow> ('a \<Rightarrow> thrown + 'b) \<Rightarrow> thrown + 'b" where
  "and_then r f = (case r of Inl e \<Rightarrow> Inl e | Inr v \<Rightarrow> f v)"

section \<open>LLMService.extractContent and convertTextToFofaQuery\<close>

text \<open>
  A step of a property chain: a named property or the index \<^verbatim>\<open>[0]\<close>. A failed read throws
  a \<^verbatim>\<open>TypeError\<close> whose message is chosen by the engine; the model takes that choice as
  the parameter \<open>tm\<close>, a function of the value read from and of the property name.
\<close>

datatype key = Name jsstring | Index0

fun get_key :: "jsval \<Rightarrow> key \<Rightarrow> jsval option" where
  "get_key v (Name n) = get_prop v n"
| "get_key v Index0 = get_index0 v"

fun key_name :: "key \<Rightarrow> jsstring" where
  "key_name (Name n) = n"
| "key_name Index0 = asc ''0''"

definition read_key :: "(jsval \<Rightarrow> jsstring \<Rightarrow> jsstring) \<Rightarrow> jsval \<Rightarrow> key \<Rightarrow> thrown + jsval" where
  "read_key tm v k = (case get_key v k of None \<Rightarrow> Inl (Error (tm v (key_name k))) | Some r \<Rightarrow> Inr r)"

fun read_path :: "(jsval \<Rightarrow> jsstring \<Rightarrow> jsstring) \<Rightarrow> jsval \<Rightarrow> key list \<Rightarrow> thrown + jsval" where
  "read_path tm v [] = Inr v"
| "read_path tm v (k # ks) = and_then (read_key tm v k) (\<lambda>r. read_path tm r ks)"

text \<open>\<^verbatim>\<open>v.trim()\<close>: defined on a string only; on anything else the call throws a \<^verbatim>\<open>TypeError\<close>.\<close>

fun call_trim :: "(jsval \<Rightarrow> jsstring \<Rightarrow> jsstring) \<Rightarrow> jsval \<Rightarrow> thrown + jsstring" where
  "call_trim tm (Some (JString s)) = Inr (trim s)"
| "call_trim tm v = Inl (Error (tm v (asc ''trim'')))"

text \<open>\<^verbatim>\<open>data.list && data.list[0]\<close> as a condition.\<close>

definition has_first :: "(jsval \<Rightarrow> jsstring \<Rightarrow> jsstring) \<Rightarrow> jsval \<Rightarrow> jsstring \<Rightarrow> thrown + bool" where
  "has_first tm responseData list =
     and_then (read_key tm responseData (Name list)) (\<lambda>l.
       if truthy l then and_then (read_key tm l Index0) (\<lambda>first. Inr (truthy first))
       else Inr False)"

definition msg_bad_format :: jsstring where
  "msg_bad_format =
     [0x65E0, 0x6CD5, 0x89E3, 0x6790, 0x0041, 0x0050, 0x0049, 0x54CD, 0x5E94, 0x683C, 0x5F0F]"

definition candidates_path :: "key list" where
  "candidates_path =
     [Name (asc ''candidates''), Index0, Name (asc ''content''), Name (asc ''parts''), Index0,
      Name (asc ''text'')]"

definition choices_path :: "key list" where
  "choices_path = [Name (asc ''choices''), Index0, Name (asc ''message''), Name (asc ''content'')]"

text \<open>
  \<^verbatim>\<open>
  private extractContent(responseData: any): string {
    if (responseData.candidates && responseData.candidates[0]) {
      return responseData.candidates[0].content.parts[0].text.trim();
    }
    if (responseData.choices && responseData.choices[0]) {
      return responseData.choices[0].message.content.trim();
    }
    throw new Error("...");
  }
  \<close>
  with \<open>msg_bad_format\<close> for the message of the last line.
\<close>

definition extractContent :: "(jsval \<Rightarrow> jsstring \<Rightarrow> jsstring) \<Rightarrow> jsval \<Rightarrow> thrown + jsstring" where
  "extractContent tm responseData =
     and_then (has_first tm responseData (asc ''candidates'')) (\<lambda>c.
       if c then and_then (read_path tm responseData candidates_path) (call_trim tm)
       else
         and_then (has_first tm responseData (asc ''choices'')) (\<lambda>c'.
           if c' then and_then (read_path tm responseData choices_path) (call_trim tm)
           else Inl (Error msg_bad_format)))"

definition msg_llm_failed_prefix :: jsstring where
  "msg_llm_failed_prefix =
     [0x004C, 0x004C, 0x004D, 0x670D, 0x52A1, 0x8C03, 0x7528, 0x5931, 0x8D25, 0x003A, 0x0020]"

text \<open>
  \<^verbatim>\<open>
  async convertTextToFofaQuery(userInput: string): Promise<LLMResponse> {
    const prompt = this.buildPrompt(userInput);
    try {
      const { requestData, headers } = this.buildRequest(prompt);
      const response = await axios.post(this.config.apiUrl, requestData,
                                        { headers: headers, timeout: 300000 });
      const content = this.extractContent(response.data);
      try { ... } catch (parseError) { ... }       // parseLLMContent
    } catch (error) {
      throw new Error(`...: ${error instanceof Error ? error.message : "..."}`);
    }
  }
  \<close>
  The remote call is the only input besides the user text: \<open>posted\<close> is what awaiting
  \<^verbatim>\<open>axios.post\<close> gives, the value it throws or \<^verbatim>\<open>response.data\<close>. Building the prompt and
  the request concatenates strings and fills object literals, and does not throw. The
  message of the error thrown at the end is \<open>msg_llm_failed_prefix\<close> followed by the message
  of the error caught.
\<close>

definition convertTextToFofaQuery ::
    "(jsval \<Rightarrow> jsstring \<Rightarrow> jsstring) \<Rightarrow> thrown + jsval \<Rightarrow> thrown + RawResponse" where
  "convertTextToFofaQuery tm posted =
     (case and_then posted (\<lambda>data.
             and_then (extractContent tm data) (\<lambda>content. Inr (parseLLMContent content))) of
        Inl error \<Rightarrow> Inl (Error (msg_llm_failed_prefix @ message_or_unknown error))
      | Inr r \<Rightarrow> Inr r)"

text \<open>
  The two envelope shapes in the words of the specification: the response holds a string
  at \<^verbatim>\<open>candidates[0].content.parts[0].text\<close>, or at \<^verbatim>\<open>choices[0].message.content\<close>. The
  path is followed without failing: a step from a value that has no such property gives
  \<^verbatim>\<open>undefined\<close>.
\<close>

fun lookup_path :: "jsval \<Rightarrow> key list \<Rightarrow> jsval" where
  "lookup_path v [] = v"
| "lookup_path v (k # ks) = (case get_key v k of None \<Rightarrow> None | Some r \<Rightarrow> lookup_path r ks)"

definition has_text_at :: "jsval \<Rightarrow> key list \<Rightarrow> bool" where
  "has_text_at v path = (case lookup_path v path of Some (JString s) \<Rightarrow> True | _ \<Rightarrow> False)"

definition matches_candidates_shape :: "jsval \<Rightarrow> bool" where
  "matches_candidates_shape responseData = has_text_at responseData candidates_path"

definition matches_choices_shape :: "jsval \<Rightarrow> bool" where
  "matches_choices_shape responseData = has_text_at responseData choices_path"

section \<open>Sample provider responses\<close>

text \<open>
  A choice of \<^verbatim>\<open>TypeError\<close> messages; an envelope of the \<^verbatim>\<open>choices\<close> shape holding the
  null-decision text; and an envelope whose first candidate has no \<^verbatim>\<open>content\<close>.
\<close>

definition sample_tm :: "jsval \<Rightarrow> jsstring \<Rightarrow> jsstring" where
  "sample_tm v n = asc ''Cannot read properties (reading '' @ n @ asc '')''"

definition sample_envelope :: jsval where
  "sample_envelope =
     Some (JObject [(asc ''choices'',
       JArray [JObject [(asc ''message'',
         JObject [(asc ''content'', JString sample_null_decision)])]])])"

definition sample_broken_envelope :: jsval where
  "sample_broken_envelope = Some (JObject [(asc ''candidates'', JArray [JObject []])])"

section \<open>FofaService.executeFofaQuery\<close>

text \<open>
  The records of \<^verbatim>\<open>types.ts\<close>. Where two interfaces of the source share a field name, or
  a name is taken in HOL, the field carries a prefix here: \<^verbatim>\<open>FofaConfig.email\<close> and
  \<^verbatim>\<open>apiKey\<close> are \<open>config_email\<close> and \<open>config_apiKey\<close>, the fields of \<^verbatim>\<open>FofaQueryParams\<close>
  are \<open>param_\<close> names, \<^verbatim>\<open>FofaApiResponse.error\<close> is \<open>api_error\<close>. Of \<^verbatim>\<open>FofaApiResponse\<close> only
  the two fields the code reads are kept; \<open>results\<close> is \<open>None\<close> when the property is
  missing. A JavaScript number the code only passes on has the type \<open>'n\<close>.
\<close>

record FofaConfig =
  config_email :: jsstring
  config_apiKey :: jsstring

record 'n FofaQueryParams =
  param_email :: jsstring
  param_key :: jsstring
  param_qbase64 :: jsstring
  param_fields :: jsstring
  param_size :: 'n
  param_page :: 'n

record FofaResult =
  ip :: jsstring
  port :: jsstring
  title :: jsstring
  host :: jsstring

record FofaApiResponse =
  api_error :: bool
  results :: "jsstring list list option"

text \<open>\<^verbatim>\<open>result[i] || ''\<close> on an array of strings.\<close>

definition element_or_empty :: "jsstring list \<Rightarrow> nat \<Rightarrow> jsstring" where
  "element_or_empty result i = (if i < length result then result ! i else [])"

text \<open>
  \<^verbatim>\<open>
  private transformResults(rawResults: string[][]): FofaResult[] {
    if (!rawResults || rawResults.length === 0) { return []; }
    return rawResults.map(result => ({
      ip: result[0] || '', port: result[1] || '', title: result[2] || '', host: result[3] || ''
    }));
  }
  \<close>
\<close>

definition transformResults :: "jsstring list list option \<Rightarrow> FofaResult list" where
  "transformResults rawResults =
     (case rawResults of
        None \<Rightarrow> []
      | Some rows \<Rightarrow>
          if length rows = 0 then []
          else map (\<lambda>result.
                 \<lparr>ip = element_or_empty result 0, port = element_or_empty result 1,
                  title = element_or_empty result 2, host = element_or_empty result 3\<rparr>) rows)"

definition msg_invalid_query_prefix :: jsstring where
  "msg_invalid_query_prefix =
     [0x65E0, 0x6548, 0x7684, 0x0046, 0x004F, 0x0046, 0x0041, 0x67E5, 0x8BE2, 0x8BED, 0x6CD5,
      0x003A, 0x0020]"

definition msg_api_error :: jsstring where
  "msg_api_error =
     [0x0046, 0x004F, 0x0046, 0x0041, 0x0020, 0x0041, 0x0050, 0x0049, 0x8FD4, 0x56DE, 0x9519,
      0x8BEF, 0xFF0C, 0x8BF7, 0x68C0, 0x67E5, 0x67E5, 0x8BE2, 0x8BED, 0x6CD5, 0x6216, 0x0041,
      0x0050, 0x0049, 0x914D, 0x7F6E]"

definition msg_auth_failed :: jsstring where
  "msg_auth_failed =
     [0x0046, 0x004F, 0x0046, 0x0041, 0x0020, 0x0041, 0x0050, 0x0049, 0x8BA4, 0x8BC1, 0x5931,
      0x8D25, 0xFF0C, 0x8BF7, 0x68C0, 0x67E5, 0x0065, 0x006D, 0x0061, 0x0069, 0x006C, 0x548C,
      0x0041, 0x0050, 0x0049, 0x0020, 0x006B, 0x0065, 0x0079, 0x914D, 0x7F6E]"

definition msg_access_denied :: jsstring where
  "msg_access_denied =
     [0x0046, 0x004F, 0x0046, 0x0041, 0x0020, 0x0041, 0x0050, 0x0049, 0x8BBF, 0x95EE, 0x88AB,
      0x62D2, 0x7EDD, 0xFF0C, 0x53EF, 0x80FD, 0x662F, 0x67E5, 0x8BE2, 0x914D, 0x989D, 0x4E0D,
      0x8DB3]"

definition msg_timeout :: jsstring where
  "msg_timeout =
     [0x0046, 0x004F, 0x0046, 0x0041, 0x0020, 0x0041, 0x0050, 0x0049, 0x8BF7, 0x6C42, 0x8D85,
      0x65F6, 0xFF0C, 0x8BF7, 0x7A0D, 0x540E, 0x91CD, 0x8BD5]"

definition msg_search_failed_prefix :: jsstring where
  "msg_search_failed_prefix =
     [0x0046, 0x004F, 0x0046, 0x0041, 0x67E5, 0x8BE2, 0x6267, 0x884C, 0x5931, 0x8D25, 0x003A,
      0x0020]"

text \<open>
  The \<^verbatim>\<open>catch\<close> block of \<^verbatim>\<open>executeFofaQuery\<close>: the error it throws for the error it caught.
  \<^verbatim>\<open>
    } catch (error) {
      if (axios.isAxiosError(error)) {
        if (error.response?.status === 401) { throw new Error('...'); }        // msg_auth_failed
        else if (error.response?.status === 403) { throw new Error('...'); }   // msg_access_denied
        else if (error.code === 'ECONNABORTED') { throw new Error('...'); }    // msg_timeout
      }
      throw new Error(`...: ${error instanceof Error ? error.message : '...'}`);
    }
  \<close>
\<close>

definition search_catch :: "thrown \<Rightarrow> thrown" where
  "search_catch error =
     (if isAxiosError error \<and> response_status error = Some 401 then Error msg_auth_failed
      else if isAxiosError error \<and> response_status error = Some 403 then Error msg_access_denied
      else if isAxiosError error \<and> error_code error = Some (asc ''ECONNABORTED'')
        then Error msg_timeout
      else Error (msg_search_failed_prefix @ message_or_unknown error))"

text \<open>
  \<^verbatim>\<open>
  async executeFofaQuery(query: string, size: number = 100, page: number = 1) {
    if (!this.validateQuery(query)) { throw new Error(`...: ${query}`); }
    try {
      const qbase64 = Buffer.from(query, 'utf-8').toString('base64');
      const params: FofaQueryParams = {
        email: this.config.email, key: this.config.apiKey, qbase64: qbase64,
        fields: 'ip,port,title,host', size: size, page: page };
      const response = await axios.get<FofaApiResponse>(`.../api/v1/search/all`,
                                                        { params: params, timeout: 30000 });
      if (response.data.error) { throw new Error('...'); }                     // msg_api_error
      return this.transformResults(response.data.results);
    } catch (error) { ... }                                                    // search_catch
  }
  \<close>
  The platform enters as two parameters: \<open>base64\<close> is
  \<^verbatim>\<open>Buffer.from(q, 'utf-8').toString('base64')\<close>, and \<open>axios_get\<close> gives for a request what
  awaiting \<^verbatim>\<open>axios.get\<close> gives, the value thrown or \<^verbatim>\<open>response.data\<close>. The second component
  of the result lists the requests sent, so that a call that is not made is visible. The
  argument \<^verbatim>\<open>size\<close> is written \<open>size'\<close>.
\<close>

definition request_params ::
    "(jsstring \<Rightarrow> jsstring) \<Rightarrow> FofaConfig \<Rightarrow> jsstring \<Rightarrow> 'n \<Rightarrow> 'n \<Rightarrow> 'n FofaQueryParams" where
  "request_params base64 config query size' page =
     \<lparr>param_email = config_email config, param_key = config_apiKey config,
      param_qbase64 = base64 query, param_fields = asc ''ip,port,title,host'',
      param_size = size', param_page = page\<rparr>"

definition executeFofaQuery ::
    "(jsstring \<Rightarrow> jsstring) \<Rightarrow> ('n FofaQueryParams \<Rightarrow> thrown + FofaApiResponse) \<Rightarrow> FofaConfig \<Rightarrow>
     jsstring \<Rightarrow> 'n \<Rightarrow> 'n \<Rightarrow> (thrown + FofaResult list) \<times> 'n FofaQueryParams list" where
  "executeFofaQuery base64 axios_get config query size' page =
     (if \<not> validateQuery query then (Inl (Error (msg_invalid_query_prefix @ query)), [])
      else
        let params = request_params base64 config query size' page;
            attempt =
              and_then (axios_get params) (\<lambda>response.
                if api_error response then Inl (Error msg_api_error)
                else Inr (transformResults (results response)))
        in (case attempt of
              Inl error \<Rightarrow> (Inl (search_catch error), [params])
            | Inr found \<Rightarrow> (Inr found, [params])))"

section \<open>Conversion to string\<close>




section \<open>FofaService.executeFofaQuery on a value of any type\<close>


section \<open>Sample search requests\<close>

text \<open>
  An account, an encoder that leaves the query as it is, a search service that answers
  every request with the error flag set, one that answers with HTTP status 401, and one
  that answers with one row.
\<close>

definition sample_config :: FofaConfig where
  "sample_config = \<lparr>config_email = asc ''a@b.c'', config_apiKey = asc ''k''\<rparr>"

definition sample_base64 :: "jsstring \<Rightarrow> jsstring" where
  "sample_base64 q = q"

definition flagged_service :: "nat FofaQueryParams \<Rightarrow> thrown + FofaApiResponse" where
  "flagged_service params = Inr \<lparr>api_error = True, results = None\<rparr>"

definition unauthorized_service :: "nat FofaQueryParams \<Rightarrow> thrown + FofaApiResponse" where
  "unauthorized_service params =
     Inl (AxiosError (Some 401) (Some (asc ''ERR_BAD_REQUEST''))
            (asc ''Request failed with status code 401''))"

definition one_row_service :: "nat FofaQueryParams \<Rightarrow> thrown + FofaApiResponse" where
  "one_row_service params =
     Inr \<lparr>api_error = False, results = Some [[asc ''1.2.3.4'', asc ''80'']]\<rparr>"

section \<open>Orchestrator.processUserQuery\<close>

text \<open>
  \<^verbatim>\<open>ProcessResult\<close> of \<^verbatim>\<open>types.ts\<close>; its \<^verbatim>\<open>error\<close>, \<^verbatim>\<open>query\<close> and \<^verbatim>\<open>explanation\<close> carry
  the prefix \<open>result_\<close>. A field is \<open>None\<close> when the object literal does not set it or sets
  it to \<^verbatim>\<open>undefined\<close>. The query and the explanation are copied from the translation
  result, whose fields are not checked against the declared types, so they are values of
  any JSON type.
\<close>

record ProcessResult =
  success :: bool
  data :: "FofaResult list option"
  result_error :: "jsstring option"
  result_query :: jsval
  result_explanation :: jsval






section \<open>NL2FOFAMCPServer.handleNaturalLanguageQuery\<close>




section \<open>Sample runs of the whole pipeline\<close>













section \<open>Properties of the validator\<close>

lemma length_filter_eq_count_list:
  "length (filter (\<lambda>x. x = c) s) = count_list s c"
  by (induction s) auto

lemma match_all_char_length:
  "length (case match_all_char c s of None \<Rightarrow> [] | Some ms \<Rightarrow> ms) = count_list s c"
  by (simp add: match_all_char_def Let_def length_filter_eq_count_list [symmetric])

lemma match_all_char_even:
  "(case match_all_char c s of None \<Rightarrow> True | Some qs \<Rightarrow> length qs mod 2 = 0)
     \<longleftrightarrow> even (count_list s c)"
  by (auto simp: match_all_char_def Let_def length_filter_eq_count_list [symmetric]
      filter_empty_conv)

lemma dropWhile_all_iff: "(\<forall>x \<in> set (dropWhile P s). P x) \<longleftrightarrow> (\<forall>x \<in> set s. P x)"
  by (induction s) auto

lemma trim_empty_iff: "trim s = [] \<longleftrightarrow> (\<forall>c \<in> set s. is_space c)"
  by (simp add: trim_def dropWhile_eq_Nil_conv dropWhile_all_iff)

lemma trim_nonempty_imp_nonempty: "trim s \<noteq> [] \<Longrightarrow> s \<noteq> []"
  by (auto simp: trim_def)

text \<open>
  C3. For every string \<open>s\<close>, \<open>validateQuery s\<close> holds if and only if \<open>s\<close> is non-empty after
  trimming white space, the number of double quotes in \<open>s\<close> is even, the number of opening
  parentheses equals the number of closing ones, and \<open>s\<close> contains an \<open>=\<close>, a \<open>:\<close> or a word
  character. In particular it is false on the empty string, on a string of white space
  only, and on every string with an odd number of quotes or unequal parenthesis counts.
  The function is a total, deterministic function of its argument with no error branch.
\<close>

theorem validateQuery_characterisation:
  "(validateQuery s \<longleftrightarrow>
      trim s \<noteq> [] \<and> even (count_list s 0x22) \<and> count_list s 0x28 = count_list s 0x29 \<and>
      (\<exists>c \<in> set s. c = 0x3D \<or> c = 0x3A \<or> is_word c))
   \<and> \<not> validateQuery []
   \<and> ((\<forall>c \<in> set s. is_space c) \<longrightarrow> \<not> validateQuery s)
   \<and> (odd (count_list s 0x22) \<longrightarrow> \<not> validateQuery s)
   \<and> (count_list s 0x28 \<noteq> count_list s 0x29 \<longrightarrow> \<not> validateQuery s)"
proof -
  have main: "validateQuery s \<longleftrightarrow>
      trim s \<noteq> [] \<and> even (count_list s 0x22) \<and> count_list s 0x28 = count_list s 0x29 \<and>
      (\<exists>c \<in> set s. c = 0x3D \<or> c = 0x3A \<or> is_word c)" for s
  proof (cases "trim s = []")
    case True
    then show ?thesis by (simp add: validateQuery_def)
  next
    case False
    then have "s \<noteq> []" by (rule trim_nonempty_imp_nonempty)
    with False show ?thesis
      unfolding validateQuery_def Let_def match_all_char_length match_all_char_even
      by (auto simp: list_ex_iff)
  qed
  have empty: "\<not> validateQuery []" by (simp add: validateQuery_def)
  have spaces: "(\<forall>c \<in> set s. is_space c) \<longrightarrow> \<not> validateQuery s"
    using main [of s] trim_empty_iff [of s] by blast
  show ?thesis using main [of s] empty spaces by blast
qed

theorem validateQuery_characterisation_witness:
  "validateQuery (asc ''app=\"nginx\" && (port=\"80\")'')
   \<and> list_all is_space (asc '' '') \<and> \<not> validateQuery (asc '' '')
   \<and> odd (count_list (asc ''app=\"nginx'') 0x22) \<and> \<not> validateQuery (asc ''app=\"nginx'')
   \<and> count_list (asc ''(a=b'') 0x28 \<noteq> count_list (asc ''(a=b'') 0x29
   \<and> \<not> validateQuery (asc ''(a=b'')"
proof -
  have 1: "validateQuery (asc ''app=\"nginx\" && (port=\"80\")'')"
    unfolding validateQuery_characterisation [of "asc ''app=\"nginx\" && (port=\"80\")''", THEN conjunct1]
    by (simp add: asc_def trim_def is_space_def is_word_def)
  have 2: "\<forall>c \<in> set (asc '' ''). is_space c" by (simp add: asc_def is_space_def)
  have sp: "list_all is_space (asc '' '')" by (simp add: asc_def is_space_def)
  have 3: "odd (count_list (asc ''app=\"nginx'') 0x22)" by (simp add: asc_def)
  have 4: "count_list (asc ''(a=b'') 0x28 \<noteq> count_list (asc ''(a=b'') 0x29"
    by (simp add: asc_def)
  show ?thesis
    using 1 2 sp 3 4 validateQuery_characterisation [of "asc '' ''"]
      validateQuery_characterisation [of "asc ''app=\"nginx''"]
      validateQuery_characterisation [of "asc ''(a=b''"]
    by blast
qed

section \<open>Properties of the fallback extraction\<close>


lemma quoted_at_SomeD:
  assumes "quoted_at s = Some g"
  shows "g \<noteq> [] \<and> 0x22 \<notin> set g \<and> (\<exists>b. s = [0x22] @ g @ [0x22] @ b)"
proof -
  from assms obtain r where s: "s = 0x22 # r"
    and g: "g = takeWhile (\<lambda>x. x \<noteq> 0x22) r" and ne: "g \<noteq> []"
    and after: "dropWhile (\<lambda>x. x \<noteq> 0x22) r \<noteq> []"
    by (auto simp: quoted_at_def Let_def split: list.splits if_splits)
  from after obtain b where b: "dropWhile (\<lambda>x. x \<noteq> 0x22) r = 0x22 # b"
    using hd_dropWhile [of "\<lambda>x. x \<noteq> 0x22" r]
    by (cases "dropWhile (\<lambda>x. x \<noteq> 0x22) r") auto
  have "r = g @ 0x22 # b"
    using takeWhile_dropWhile_id [of "\<lambda>x. x \<noteq> 0x22" r] g b by simp
  moreover have "0x22 \<notin> set g" using g by (auto dest: set_takeWhileD)
  ultimately show ?thesis using s ne by simp
qed

lemma colon_quoted_at_SomeD:
  assumes "colon_quoted_at s = Some g"
  shows "g \<noteq> [] \<and> 0x22 \<notin> set g \<and> (\<exists>a b. s = a @ [0x22] @ g @ [0x22] @ b)"
proof -
  from assms obtain r where s: "s = 0x3A # r" and q: "quoted_at (dropWhile is_space r) = Some g"
    by (auto simp: colon_quoted_at_def split: list.splits if_splits)
  from quoted_at_SomeD [OF q] obtain b where
    g: "g \<noteq> []" "0x22 \<notin> set g" and d: "dropWhile is_space r = [0x22] @ g @ [0x22] @ b"
    by blast
  have "r = takeWhile is_space r @ [0x22] @ g @ [0x22] @ b"
    using takeWhile_dropWhile_id [of is_space r] d by simp
  then have "s = (0x3A # takeWhile is_space r) @ [0x22] @ g @ [0x22] @ b"
    using s by simp
  with g show ?thesis by blast
qed

lemma strip_literal_SomeD: "strip_literal p s = Some r \<Longrightarrow> s = p @ r"
  by (induction p s rule: strip_literal.induct) (auto split: if_splits)

lemma strip_literal_append: "strip_literal p (p @ r) = Some r"
  by (induction p) auto

lemma key_value_at_SomeD:
  assumes "key_value_at key s = Some g"
  shows "g \<noteq> [] \<and> 0x22 \<notin> set g \<and> (\<exists>a b. s = a @ [0x22] @ g @ [0x22] @ b)"
proof -
  from assms obtain r where r: "strip_literal ([0x22] @ key @ [0x22]) s = Some r"
    and q: "colon_quoted_at (dropWhile is_space r) = Some g"
    by (auto simp: key_value_at_def split: option.splits)
  from colon_quoted_at_SomeD [OF q] obtain a b where
    g: "g \<noteq> []" "0x22 \<notin> set g" and d: "dropWhile is_space r = a @ [0x22] @ g @ [0x22] @ b"
    by blast
  have "r = takeWhile is_space r @ a @ [0x22] @ g @ [0x22] @ b"
    using takeWhile_dropWhile_id [of is_space r] d by simp
  then have "s = (([0x22] @ key @ [0x22]) @ takeWhile is_space r @ a) @ [0x22] @ g @ [0x22] @ b"
    using strip_literal_SomeD [OF r] by simp
  with g show ?thesis by blast
qed

lemma first_match_SomeD:
  "first_match m s = Some g \<Longrightarrow> \<exists>a t. s = a @ t \<and> m t = Some g"
proof (induction s)
  case Nil
  then show ?case by simp
next
  case (Cons c cs)
  show ?case
  proof (cases "m (c # cs)")
    case (Some h)
    with Cons.prems have "m (c # cs) = Some g" by simp
    then show ?thesis by (metis append_Nil)
  next
    case None
    with Cons.prems have "first_match m cs = Some g" by simp
    from Cons.IH [OF this] obtain a t where "cs = a @ t" "m t = Some g" by blast
    then have "c # cs = (c # a) @ t" by simp
    with \<open>m t = Some g\<close> show ?thesis by blast
  qed
qed

lemma match_key_value_SomeD:
  assumes "match_key_value key text = Some g"
  shows "g \<noteq> [] \<and> 0x22 \<notin> set g \<and> (\<exists>a b. text = a @ [0x22] @ g @ [0x22] @ b)"
proof -
  from first_match_SomeD [OF assms [unfolded match_key_value_def]]
  obtain a t where t: "text = a @ t" "key_value_at key t = Some g" by blast
  from key_value_at_SomeD [OF t(2)] obtain a' b where
    g: "g \<noteq> []" "0x22 \<notin> set g" and "t = a' @ [0x22] @ g @ [0x22] @ b" by blast
  then have "text = (a @ a') @ [0x22] @ g @ [0x22] @ b" using t(1) by simp
  with g show ?thesis by blast
qed

lemma match_colon_quoted_SomeD:
  assumes "match_colon_quoted line = Some g"
  shows "g \<noteq> [] \<and> 0x22 \<notin> set g \<and> (\<exists>a b. line = a @ [0x22] @ g @ [0x22] @ b)"
proof -
  from first_match_SomeD [OF assms [unfolded match_colon_quoted_def]]
  obtain a t where t: "line = a @ t" "colon_quoted_at t = Some g" by blast
  from colon_quoted_at_SomeD [OF t(2)] obtain a' b where
    g: "g \<noteq> []" "0x22 \<notin> set g" and "t = a' @ [0x22] @ g @ [0x22] @ b" by blast
  then have "line = (a @ a') @ [0x22] @ g @ [0x22] @ b" using t(1) by simp
  with g show ?thesis by blast
qed

lemma split_newline_nonempty: "split_newline s \<noteq> []"
  by (induction s) (auto split: list.splits)

lemma split_newline_first:
  "split_newline s = h # ls \<Longrightarrow> \<exists>b. s = h @ b"
proof (induction s arbitrary: h ls)
  case Nil
  then show ?case by simp
next
  case (Cons c cs)
  show ?case
  proof (cases "c = 0x0A")
    case True
    with Cons.prems show ?thesis by simp
  next
    case False
    obtain h' ls' where hl: "split_newline cs = h' # ls'"
      using split_newline_nonempty [of cs] by (cases "split_newline cs") auto
    from Cons.IH [OF hl] obtain b where "cs = h' @ b" by blast
    moreover from False hl Cons.prems have "h = c # h'" by simp
    ultimately have "c # cs = h @ b" by simp
    then show ?thesis by blast
  qed
qed

lemma split_newline_piece:
  "l \<in> set (split_newline s) \<Longrightarrow> \<exists>a b. s = a @ l @ b"
proof (induction s arbitrary: l)
  case Nil
  then show ?case by simp
next
  case (Cons c cs)
  show ?case
  proof (cases "c = 0x0A")
    case True
    with Cons.prems have "l = [] \<or> l \<in> set (split_newline cs)" by simp
    then show ?thesis
    proof
      assume "l = []"
      then have "c # cs = [] @ l @ (c # cs)" by simp
      then show ?thesis by blast
    next
      assume "l \<in> set (split_newline cs)"
      from Cons.IH [OF this] obtain a b where "cs = a @ l @ b" by blast
      then have "c # cs = (c # a) @ l @ b" by simp
      then show ?thesis by blast
    qed
  next
    case False
    obtain h ls where hl: "split_newline cs = h # ls"
      using split_newline_nonempty [of cs] by (cases "split_newline cs") auto
    with False Cons.prems have "l = c # h \<or> l \<in> set ls" by simp
    then show ?thesis
    proof
      assume l: "l = c # h"
      from split_newline_first [OF hl] obtain b where "cs = h @ b" by blast
      then have "c # cs = [] @ l @ b" using l by simp
      then show ?thesis by blast
    next
      assume "l \<in> set ls"
      then have "l \<in> set (split_newline cs)" using hl by simp
      from Cons.IH [OF this] obtain a b where "cs = a @ l @ b" by blast
      then have "c # cs = (c # a) @ l @ b" by simp
      then show ?thesis by blast
    qed
  qed
qed

lemma captured_in_piece:
  "captured_in g l \<Longrightarrow> s = a @ l @ b \<Longrightarrow> captured_in g s"
proof -
  assume c: "captured_in g l" and s: "s = a @ l @ b"
  from c obtain a' b' where l: "l = a' @ [0x22] @ g @ [0x22] @ b'"
    and g: "g \<noteq> []" "0x22 \<notin> set g"
    by (auto simp: captured_in_def)
  have "s = (a @ a') @ [0x22] @ g @ [0x22] @ (b' @ b)" using s l by simp
  with g show ?thesis unfolding captured_in_def by blast
qed

lemma match_colon_quoted_captured:
  "match_colon_quoted line = Some g \<Longrightarrow> captured_in g line"
  using match_colon_quoted_SomeD [of "line" g] by (simp add: captured_in_def)

lemma match_key_value_captured:
  "match_key_value key text = Some g \<Longrightarrow> captured_in g text"
  using match_key_value_SomeD [of key "text" g] by (simp add: captured_in_def)

lemma scan_line_inv:
  assumes "scan_inv text st" and "text = a @ line @ b"
  shows "scan_inv text (scan_line st line)"
proof -
  have m: "captured_in g text" if "match_colon_quoted line = Some g" for g
    using match_colon_quoted_captured [OF that] assms(2) by (rule captured_in_piece)
  show ?thesis
    using assms(1) m
    by (auto simp: scan_inv_def scan_line_def Let_def split: option.splits)
qed

lemma foldl_scan_line_inv:
  "scan_inv text st \<Longrightarrow> (\<forall>l \<in> set ls. \<exists>a b. text = a @ l @ b) \<Longrightarrow>
     scan_inv text (foldl scan_line st ls)"
proof (induction ls arbitrary: st)
  case Nil
  then show ?case by simp
next
  case (Cons l ls)
  from Cons.prems(2) obtain a b where "text = a @ l @ b" by auto
  with Cons.prems(1) have "scan_inv text (scan_line st l)" by (rule scan_line_inv)
  moreover have "\<forall>l \<in> set ls. \<exists>a b. text = a @ l @ b" using Cons.prems(2) by simp
  ultimately show ?case using Cons.IH by simp
qed

lemma scan_lines_inv: "scan_inv text (foldl scan_line (None, []) (split_newline text))"
proof (rule foldl_scan_line_inv)
  show "scan_inv text (None, [])" by (simp add: scan_inv_def)
  show "\<forall>l \<in> set (split_newline text). \<exists>a b. text = a @ l @ b"
    using split_newline_piece by blast
qed

lemma extractFromText_captured:
  "(case fofa_query (extractFromText text) of None \<Rightarrow> True | Some q \<Rightarrow> captured_in q text) \<and>
   (explanation (extractFromText text) = msg_extracted_default \<or>
    captured_in (explanation (extractFromText text)) text)"
proof (cases "match_key_value (asc ''fofa_query'') text")
  case None
  then show ?thesis
    using scan_lines_inv [of "text"]
    by (auto simp: extractFromText_def Let_def scan_inv_def)
next
  case q: (Some q)
  show ?thesis
  proof (cases "match_key_value (asc ''explanation'') text")
    case None
    with q show ?thesis
      using scan_lines_inv [of "text"]
      by (auto simp: extractFromText_def Let_def scan_inv_def)
  next
    case (Some e)
    with q show ?thesis
      using match_key_value_captured [OF q] match_key_value_captured [OF Some]
      by (simp add: extractFromText_def Let_def)
  qed
qed

lemma msg_extracted_default_plain:
  "msg_extracted_default \<noteq> [] \<and> 0x22 \<notin> set msg_extracted_default"
  by (simp add: msg_extracted_default_def)

lemma first_match_skip:
  "(\<And>t. t \<noteq> [] \<Longrightarrow> hd t \<in> set p \<Longrightarrow> m t = None) \<Longrightarrow> s \<noteq> [] \<Longrightarrow>
   first_match m (p @ s) = first_match m s"
  by (induction p) auto

lemma key_value_at_hd: "t \<noteq> [] \<Longrightarrow> hd t \<noteq> 0x22 \<Longrightarrow> key_value_at key t = None"
  by (cases t) (auto simp: key_value_at_def)

lemma colon_quoted_at_hd: "t \<noteq> [] \<Longrightarrow> hd t \<noteq> 0x3A \<Longrightarrow> colon_quoted_at t = None"
  by (cases t) (auto simp: colon_quoted_at_def)

lemma takeWhile_until: "c \<notin> set v \<Longrightarrow> takeWhile (\<lambda>x. x \<noteq> c) (v @ c # r) = v"
  by (induction v) auto

lemma dropWhile_until: "c \<notin> set v \<Longrightarrow> dropWhile (\<lambda>x. x \<noteq> c) (v @ c # r) = c # r"
  by (induction v) auto

lemma quoted_at_truncates:
  assumes "0x22 \<notin> set v"
  shows "quoted_at ([0x22] @ v @ [0x5C, 0x22] @ r) = Some (v @ [0x5C])"
proof -
  have v: "(0x22 :: jschar) \<notin> set (v @ [0x5C])" using assms by simp
  have "[0x22] @ v @ [0x5C, 0x22] @ r = 0x22 # ((v @ [0x5C]) @ 0x22 # r)" by simp
  then show ?thesis
    unfolding quoted_at_def Let_def
    by (simp only: list.case takeWhile_until [OF v] dropWhile_until [OF v]) simp
qed

lemma key_value_at_truncates:
  "0x22 \<notin> set v \<Longrightarrow>
   key_value_at key ([0x22] @ key @ [0x22, 0x3A, 0x20] @ [0x22] @ v @ [0x5C, 0x22] @ r) = Some (v @ [0x5C])"
  using strip_literal_append [of "[0x22] @ key @ [0x22]" "[0x3A, 0x20] @ [0x22] @ v @ [0x5C, 0x22] @ r"]
    quoted_at_truncates [of v r]
  by (simp add: key_value_at_def colon_quoted_at_def is_space_def)

lemma match_key_value_truncates:
  assumes "0x22 \<notin> set p" "0x22 \<notin> set v"
  shows "match_key_value key (p @ [0x22] @ key @ [0x22, 0x3A, 0x20] @ [0x22] @ v @ [0x5C, 0x22] @ r)
           = Some (v @ [0x5C])"
proof -
  let ?s = "[0x22] @ key @ [0x22, 0x3A, 0x20] @ [0x22] @ v @ [0x5C, 0x22] @ r"
  have "first_match (key_value_at key) (p @ ?s) = first_match (key_value_at key) ?s"
  proof (rule first_match_skip)
    fix t :: jsstring assume "t \<noteq> []" "hd t \<in> set p"
    with assms(1) have "hd t \<noteq> 0x22" by auto
    with \<open>t \<noteq> []\<close> show "key_value_at key t = None" by (rule key_value_at_hd)
  qed simp
  also have "\<dots> = Some (v @ [0x5C])"
    using key_value_at_truncates [OF assms(2), of key r] by simp
  finally show ?thesis by (simp add: match_key_value_def)
qed

lemma match_colon_quoted_truncates:
  assumes "0x3A \<notin> set p" "0x22 \<notin> set v"
  shows "match_colon_quoted (p @ [0x3A, 0x20] @ [0x22] @ v @ [0x5C, 0x22] @ r) = Some (v @ [0x5C])"
proof -
  let ?s = "[0x3A, 0x20] @ [0x22] @ v @ [0x5C, 0x22] @ r"
  have "first_match colon_quoted_at (p @ ?s) = first_match colon_quoted_at ?s"
  proof (rule first_match_skip)
    fix t :: jsstring assume "t \<noteq> []" "hd t \<in> set p"
    with assms(1) have "hd t \<noteq> 0x3A" by auto
    with \<open>t \<noteq> []\<close> show "colon_quoted_at t = None" by (rule colon_quoted_at_hd)
  qed simp
  also have "\<dots> = Some (v @ [0x5C])"
    using quoted_at_truncates [OF assms(2), of r]
    by (simp add: colon_quoted_at_def is_space_def)
  finally show ?thesis by (simp add: match_colon_quoted_def)
qed

text \<open>
  C9. Every query or explanation value that \<open>extractFromText\<close> recovers, by the pattern
  scrape or by the scan over the lines, is a non-empty string without a double quote.
  Consequently a value whose text holds a backslash-escaped quote is cut at the backslash
  before that quote: both capture patterns return the text up to and including the
  backslash, and drop the quote and what follows.
\<close>

theorem fallback_values_plain:
  "(case fofa_query (extractFromText text) of None \<Rightarrow> True | Some q \<Rightarrow> q \<noteq> [] \<and> 0x22 \<notin> set q)
   \<and> explanation (extractFromText text) \<noteq> []
   \<and> 0x22 \<notin> set (explanation (extractFromText text))
   \<and> (0x22 \<notin> set p \<and> 0x22 \<notin> set v \<longrightarrow>
        match_key_value key
          (p @ [0x22] @ key @ [0x22, 0x3A, 0x20] @ [0x22] @ v @ [0x5C, 0x22] @ r) = Some (v @ [0x5C]))
   \<and> (0x3A \<notin> set p \<and> 0x22 \<notin> set v \<longrightarrow>
        match_colon_quoted (p @ [0x3A, 0x20] @ [0x22] @ v @ [0x5C, 0x22] @ r) = Some (v @ [0x5C]))"
proof -
  have q: "case fofa_query (extractFromText text) of None \<Rightarrow> True | Some q \<Rightarrow> q \<noteq> [] \<and> 0x22 \<notin> set q"
    using extractFromText_captured [of "text"]
    by (auto simp: captured_in_def split: option.splits)
  have e: "explanation (extractFromText text) \<noteq> [] \<and> 0x22 \<notin> set (explanation (extractFromText text))"
    using extractFromText_captured [of "text"] msg_extracted_default_plain
    by (auto simp: captured_in_def)
  show ?thesis
    using q e match_key_value_truncates [of p v key r] match_colon_quoted_truncates [of p v r]
    by blast
qed

theorem fallback_values_plain_witness:
  "fofa_query (extractFromText sample_two_lines) = Some (asc ''country='' @ [0x5C])
   \<and> asc ''country='' @ [0x5C] \<noteq> [] \<and> 0x22 \<notin> set (asc ''country='' @ [0x5C])
   \<and> explanation (extractFromText sample_two_lines) = asc ''y''
   \<and> 0x22 \<notin> set (asc ''country='') 
   \<and> match_key_value (asc ''fofa_query'') sample_two_lines = Some (asc ''country='' @ [0x5C])
   \<and> 0x3A \<notin> set (asc ''\"fofa_query\"'')
   \<and> match_colon_quoted sample_query_line = Some (asc ''country='' @ [0x5C])"
proof -
  have ev: "extractFromText sample_two_lines =
      \<lparr>fofa_query = Some (asc ''country='' @ [0x5C]), explanation = asc ''y''\<rparr>"
    by code_simp
  have s1: "sample_two_lines = [] @ [0x22] @ asc ''fofa_query'' @ [0x22, 0x3A, 0x20] @ [0x22] @
      asc ''country='' @ [0x5C, 0x22] @ (asc ''US'' @ [0x5C, 0x22] @ asc ''\"'' @ [0x0A] @ sample_explanation_line)"
    by (simp add: sample_two_lines_def sample_query_line_def asc_def)
  have s2: "sample_query_line = asc ''\"fofa_query\"'' @ [0x3A, 0x20] @ [0x22] @
      asc ''country='' @ [0x5C, 0x22] @ (asc ''US'' @ [0x5C, 0x22] @ asc ''\"'')"
    by (simp add: sample_query_line_def asc_def)
  have h1: "0x22 \<notin> set (asc ''country='')" by (simp add: asc_def)
  have h2: "0x3A \<notin> set (asc ''\"fofa_query\"'')" by (simp add: asc_def)
  have h3: "(0x22 :: jschar) \<notin> set []" by simp
  note t = fallback_values_plain [of sample_two_lines "[]" "asc ''country=''" "asc ''fofa_query''"
      "asc ''US'' @ [0x5C, 0x22] @ asc ''\"'' @ [0x0A] @ sample_explanation_line"]
  note t' = fallback_values_plain [of sample_two_lines "asc ''\"fofa_query\"''" "asc ''country=''" "asc ''fofa_query''"
      "asc ''US'' @ [0x5C, 0x22] @ asc ''\"''"]
  have m1: "match_key_value (asc ''fofa_query'') sample_two_lines = Some (asc ''country='' @ [0x5C])"
    using t h1 h3 unfolding s1 [symmetric] by blast
  have m2: "match_colon_quoted sample_query_line = Some (asc ''country='' @ [0x5C])"
    using t' h1 h2 unfolding s2 [symmetric] by blast
  show ?thesis using ev m1 m2 h1 h2 t by (simp add: asc_def)
qed

section \<open>Properties of the parsing block\<close>

lemma fallback_query_captured:
  "fofa_query (extractFromText content) = Some q \<Longrightarrow> captured_in q content"
  using extractFromText_captured [of content] by simp





lemma parseLLMContent_strict:
  "strictParse content = Some r \<Longrightarrow> parseLLMContent content = r"
  by (simp add: parseLLMContent_def)

lemma parseLLMContent_fallback_Some:
  assumes "strictParse content = None" "fofa_query (extractFromText content) = Some q"
  shows "parseLLMContent content =
           \<lparr>raw_query = Some (JString q),
            raw_explanation = Some (JString (explanation (extractFromText content)))\<rparr>"
proof -
  have "q \<noteq> []" using fallback_query_captured [OF assms(2)] by (simp add: captured_in_def)
  with assms show ?thesis by (simp add: parseLLMContent_def Let_def as_raw_def)
qed





text \<open>
  C6. When the cleaned text parses as the object with \<^verbatim>\<open>fofa_query\<close> \<^verbatim>\<open>null\<close> and
  \<^verbatim>\<open>explanation\<close> \<^verbatim>\<open>"too vague"\<close>, the result has a \<^verbatim>\<open>null\<close> query and the explanation
  \<^verbatim>\<open>too vague\<close>, and differs from the result of a parse failure.
\<close>

theorem null_decision_passthrough:
  assumes "JSON_parse (cleanContent raw) =
             Some (JObject [(asc ''fofa_query'', JNull),
                            (asc ''explanation'', JString (asc ''too vague''))])"
  shows "parseLLMContent raw =
           \<lparr>raw_query = Some JNull, raw_explanation = Some (JString (asc ''too vague''))\<rparr>
         \<and> parseLLMContent raw \<noteq> parse_failure_result"
proof -
  have "strictParse raw =
      Some \<lparr>raw_query = Some JNull, raw_explanation = Some (JString (asc ''too vague''))\<rparr>"
    using assms by (simp add: strictParse_def asc_def)
  then have "parseLLMContent raw =
      \<lparr>raw_query = Some JNull, raw_explanation = Some (JString (asc ''too vague''))\<rparr>"
    by (rule parseLLMContent_strict)
  moreover have "msg_unparsable \<noteq> asc ''too vague''"
    by (simp add: msg_unparsable_def asc_def)
  ultimately show ?thesis by (simp add: parse_failure_result_def)
qed

theorem null_decision_passthrough_witness:
  "JSON_parse (cleanContent sample_null_decision) =
       Some (JObject [(asc ''fofa_query'', JNull),
                      (asc ''explanation'', JString (asc ''too vague''))])
   \<and> parseLLMContent sample_null_decision =
       \<lparr>raw_query = Some JNull, raw_explanation = Some (JString (asc ''too vague''))\<rparr>
   \<and> parseLLMContent sample_null_decision \<noteq> parse_failure_result"
proof -
  have h: "JSON_parse (cleanContent sample_null_decision) =
       Some (JObject [(asc ''fofa_query'', JNull),
                      (asc ''explanation'', JString (asc ''too vague''))])"
    by code_simp
  show ?thesis using h null_decision_passthrough [OF h] by blast
qed




lemma skip_quote_free:
  assumes "0x22 \<notin> set p" "t \<noteq> []"
  shows "first_match (key_value_at key) (p @ t) = first_match (key_value_at key) t"
proof (rule first_match_skip)
  fix u :: jsstring assume "u \<noteq> []" "hd u \<in> set p"
  with assms(1) have "hd u \<noteq> 0x22" by auto
  with \<open>u \<noteq> []\<close> show "key_value_at key u = None" by (rule key_value_at_hd)
qed (rule assms(2))

lemma query_line_has_no_explanation:
  "first_match (key_value_at (asc ''explanation'')) (sample_query_line @ [0x0A] @ t) =
   first_match (key_value_at (asc ''explanation'')) t"
  by (simp add: sample_query_line_def asc_def key_value_at_def)

lemma explanation_line_has_no_query:
  "first_match (key_value_at (asc ''fofa_query'')) (sample_explanation_line @ [0x0A] @ t) =
   first_match (key_value_at (asc ''fofa_query'')) t"
  by (simp add: sample_explanation_line_def asc_def key_value_at_def)

lemma query_line_matches:
  "first_match (key_value_at (asc ''fofa_query'')) (sample_query_line @ t) =
   Some (asc ''country='' @ [0x5C])"
  by (simp add: sample_query_line_def asc_def key_value_at_def colon_quoted_at_def
      quoted_at_def is_space_def)

lemma explanation_line_matches:
  "first_match (key_value_at (asc ''explanation'')) (sample_explanation_line @ t) =
   Some (asc ''y'')"
  by (simp add: sample_explanation_line_def asc_def key_value_at_def colon_quoted_at_def
      quoted_at_def is_space_def)

lemma sample_line_nonempty:
  "sample_query_line @ t \<noteq> []" "sample_explanation_line @ t \<noteq> []"
  by (simp_all add: sample_query_line_def sample_explanation_line_def asc_def)

lemma scrape_forward:
  assumes "0x22 \<notin> set p" "0x22 \<notin> set m"
  shows "match_key_value (asc ''explanation'')
           (p @ sample_query_line @ [0x0A] @ m @ sample_explanation_line @ s) = Some (asc ''y'')"
    and "match_key_value (asc ''fofa_query'')
           (p @ sample_query_line @ [0x0A] @ m @ sample_explanation_line @ s) \<noteq> None"
proof -
  let ?E = "key_value_at (asc ''explanation'')"
  have "first_match ?E (p @ sample_query_line @ [0x0A] @ m @ sample_explanation_line @ s) =
        first_match ?E (sample_query_line @ [0x0A] @ m @ sample_explanation_line @ s)"
    using assms(1) sample_line_nonempty(1) by (rule skip_quote_free)
  also have "\<dots> = first_match ?E (m @ sample_explanation_line @ s)"
    by (rule query_line_has_no_explanation)
  also have "\<dots> = first_match ?E (sample_explanation_line @ s)"
    using assms(2) sample_line_nonempty(2) by (rule skip_quote_free)
  also have "\<dots> = Some (asc ''y'')" by (rule explanation_line_matches)
  finally show "match_key_value (asc ''explanation'')
           (p @ sample_query_line @ [0x0A] @ m @ sample_explanation_line @ s) = Some (asc ''y'')"
    by (simp add: match_key_value_def)
  let ?Q = "key_value_at (asc ''fofa_query'')"
  have "first_match ?Q (p @ sample_query_line @ [0x0A] @ m @ sample_explanation_line @ s) =
        first_match ?Q (sample_query_line @ [0x0A] @ m @ sample_explanation_line @ s)"
    using assms(1) sample_line_nonempty(1) by (rule skip_quote_free)
  also have "\<dots> = Some (asc ''country='' @ [0x5C])" by (rule query_line_matches)
  finally show "match_key_value (asc ''fofa_query'')
           (p @ sample_query_line @ [0x0A] @ m @ sample_explanation_line @ s) \<noteq> None"
    by (simp add: match_key_value_def)
qed

lemma scrape_reversed:
  assumes "0x22 \<notin> set p" "0x22 \<notin> set m"
  shows "match_key_value (asc ''explanation'')
           (p @ sample_explanation_line @ [0x0A] @ m @ sample_query_line @ s) = Some (asc ''y'')"
    and "match_key_value (asc ''fofa_query'')
           (p @ sample_explanation_line @ [0x0A] @ m @ sample_query_line @ s) \<noteq> None"
proof -
  let ?E = "key_value_at (asc ''explanation'')"
  have "first_match ?E (p @ sample_explanation_line @ [0x0A] @ m @ sample_query_line @ s) =
        first_match ?E (sample_explanation_line @ [0x0A] @ m @ sample_query_line @ s)"
    using assms(1) sample_line_nonempty(2) by (rule skip_quote_free)
  also have "\<dots> = Some (asc ''y'')" by (rule explanation_line_matches)
  finally show "match_key_value (asc ''explanation'')
           (p @ sample_explanation_line @ [0x0A] @ m @ sample_query_line @ s) = Some (asc ''y'')"
    by (simp add: match_key_value_def)
  let ?Q = "key_value_at (asc ''fofa_query'')"
  have "first_match ?Q (p @ sample_explanation_line @ [0x0A] @ m @ sample_query_line @ s) =
        first_match ?Q (sample_explanation_line @ [0x0A] @ m @ sample_query_line @ s)"
    using assms(1) sample_line_nonempty(2) by (rule skip_quote_free)
  also have "\<dots> = first_match ?Q (m @ sample_query_line @ s)"
    by (rule explanation_line_has_no_query)
  also have "\<dots> = first_match ?Q (sample_query_line @ s)"
    using assms(2) sample_line_nonempty(1) by (rule skip_quote_free)
  also have "\<dots> = Some (asc ''country='' @ [0x5C])" by (rule query_line_matches)
  finally show "match_key_value (asc ''fofa_query'')
           (p @ sample_explanation_line @ [0x0A] @ m @ sample_query_line @ s) \<noteq> None"
    by (simp add: match_key_value_def)
qed

lemma scrape_result:
  assumes "match_key_value (asc ''fofa_query'') content = Some q"
    and "match_key_value (asc ''explanation'') content = Some e"
    and "strictParse content = None"
  shows "parseLLMContent content = \<lparr>raw_query = Some (JString q), raw_explanation = Some (JString e)\<rparr>"
proof -
  have "extractFromText content = \<lparr>fofa_query = Some q, explanation = e\<rparr>"
    using assms(1,2) by (simp add: extractFromText_def)
  then show ?thesis
    using parseLLMContent_fallback_Some [OF assms(3), of q] by simp
qed

text \<open>
  C5. On the text made of the two lines \<^verbatim>\<open>"fofa_query": "country=\"US\""\<close> and
  \<^verbatim>\<open>"explanation": "y"\<close>, which is no valid structured object, the recovered query is not
  \<^verbatim>\<open>country="US"\<close>, and both patterns of the scrape over the whole text match, so the
  function returns before the scan over the lines.
\<close>

theorem escaped_quote_sample_counterexample:
  "strictParse sample_two_lines = None
   \<and> split_newline sample_two_lines = [sample_query_line, sample_explanation_line]
   \<and> includes_str sample_two_lines sample_query_line
   \<and> includes_str sample_two_lines sample_explanation_line
   \<and> raw_query (parseLLMContent sample_two_lines) \<noteq> Some (JString (asc ''country=\"US\"''))
   \<and> match_key_value (asc ''fofa_query'') sample_two_lines \<noteq> None
   \<and> match_key_value (asc ''explanation'') sample_two_lines \<noteq> None"
  by code_simp

text \<open>
  C5, amended. For every text on which the strict parse fails and which holds the two
  lines, in either order, each on a line of its own, with no double quote before them or
  between them: the pattern scrape over the whole text finds both keys, so the function
  returns there and the scan over the lines is not reached; the explanation of the result
  is \<^verbatim>\<open>y\<close> and its query is the capture of the query pattern.
\<close>

theorem two_lines_scraped:
  assumes "0x22 \<notin> set p" and "0x22 \<notin> set m"
    and "content = p @ sample_query_line @ [0x0A] @ m @ sample_explanation_line @ s \<or>
         content = p @ sample_explanation_line @ [0x0A] @ m @ sample_query_line @ s"
    and "strictParse content = None"
  shows "match_key_value (asc ''explanation'') content = Some (asc ''y'')
         \<and> (\<exists>q. match_key_value (asc ''fofa_query'') content = Some q \<and>
                 parseLLMContent content =
                   \<lparr>raw_query = Some (JString q), raw_explanation = Some (JString (asc ''y''))\<rparr>)"
proof -
  have e: "match_key_value (asc ''explanation'') content = Some (asc ''y'')"
    using assms(3) scrape_forward(1) [OF assms(1,2)] scrape_reversed(1) [OF assms(1,2)] by blast
  have "match_key_value (asc ''fofa_query'') content \<noteq> None"
    using assms(3) scrape_forward(2) [OF assms(1,2)] scrape_reversed(2) [OF assms(1,2)] by blast
  then obtain q where q: "match_key_value (asc ''fofa_query'') content = Some q" by blast
  from scrape_result [OF q e assms(4)] q e show ?thesis by blast
qed

theorem two_lines_scraped_witness:
  "0x22 \<notin> set (asc ''Answer:'' @ [0x0A])
   \<and> 0x22 \<notin> set (asc ''and'' @ [0x0A])
   \<and> strictParse (asc ''Answer:'' @ [0x0A] @ sample_two_lines_reversed) = None
   \<and> raw_explanation (parseLLMContent (asc ''Answer:'' @ [0x0A] @ sample_two_lines_reversed)) =
       Some (JString (asc ''y''))
   \<and> strictParse (sample_query_line @ [0x0A] @ (asc ''and'' @ [0x0A]) @ sample_explanation_line) = None
   \<and> raw_explanation
        (parseLLMContent (sample_query_line @ [0x0A] @ (asc ''and'' @ [0x0A]) @ sample_explanation_line)) =
       Some (JString (asc ''y''))"
proof -
  have a: "0x22 \<notin> set (asc ''Answer:'' @ [0x0A])" by (simp add: asc_def)
  have b: "0x22 \<notin> set (asc ''and'' @ [0x0A])" by (simp add: asc_def)
  have n: "(0x22 :: jschar) \<notin> set []" by simp
  have c: "strictParse (asc ''Answer:'' @ [0x0A] @ sample_two_lines_reversed) = None" by code_simp
  have d: "strictParse (sample_query_line @ [0x0A] @ (asc ''and'' @ [0x0A]) @ sample_explanation_line) = None"
    by code_simp
  have s1: "asc ''Answer:'' @ [0x0A] @ sample_two_lines_reversed =
      (asc ''Answer:'' @ [0x0A]) @ sample_explanation_line @ [0x0A] @ [] @ sample_query_line @ []"
    by (simp add: sample_two_lines_reversed_def)
  have s2: "sample_query_line @ [0x0A] @ (asc ''and'' @ [0x0A]) @ sample_explanation_line =
      [] @ sample_query_line @ [0x0A] @ (asc ''and'' @ [0x0A]) @ sample_explanation_line @ []"
    by simp
  have r1: "raw_explanation (parseLLMContent (asc ''Answer:'' @ [0x0A] @ sample_two_lines_reversed)) =
       Some (JString (asc ''y''))"
    using two_lines_scraped [OF a n disjI2 [OF s1] c] by auto
  have r2: "raw_explanation
        (parseLLMContent (sample_query_line @ [0x0A] @ (asc ''and'' @ [0x0A]) @ sample_explanation_line)) =
       Some (JString (asc ''y''))"
    using two_lines_scraped [OF n b disjI1 [OF s2] d] by auto
  show ?thesis using a b c d r1 r2 by blast
qed

section \<open>Properties of the translation client\<close>

lemma read_path_Inr: "read_path tm v path = Inr r \<Longrightarrow> r = lookup_path v path"
proof (induction path arbitrary: v)
  case Nil
  then show ?case by simp
next
  case (Cons k ks)
  then show ?case
    by (auto simp: and_then_def read_key_def split: option.splits sum.splits)
qed

lemma call_trim_Inr: "call_trim tm v = Inr s \<Longrightarrow> \<exists>t. v = Some (JString t)"
  by (cases "(tm, v)" rule: call_trim.cases) auto

lemma read_text_Inr:
  assumes "and_then (read_path tm d path) (call_trim tm) = Inr s"
  shows "has_text_at d path"
proof -
  from assms obtain r where r: "read_path tm d path = Inr r" and t: "call_trim tm r = Inr s"
    by (auto simp: and_then_def split: sum.splits)
  from call_trim_Inr [OF t] obtain t' where "r = Some (JString t')" by blast
  with read_path_Inr [OF r] have "lookup_path d path = Some (JString t')" by simp
  then show ?thesis by (simp add: has_text_at_def)
qed

lemma extractContent_Inr:
  assumes "extractContent tm d = Inr s"
  shows "matches_candidates_shape d \<or> matches_choices_shape d"
proof -
  from assms have
    "and_then (read_path tm d candidates_path) (call_trim tm) = Inr s \<or>
     and_then (read_path tm d choices_path) (call_trim tm) = Inr s"
    unfolding extractContent_def
    by (auto simp: and_then_def split: sum.splits if_splits)
  then show ?thesis
    unfolding matches_candidates_shape_def matches_choices_shape_def
    using read_text_Inr by blast
qed

lemma convert_thrown:
  "convertTextToFofaQuery tm (Inl e) = Inl (Error (msg_llm_failed_prefix @ message_or_unknown e))"
  by (simp add: convertTextToFofaQuery_def and_then_def)

lemma convert_extract_failed:
  "extractContent tm d = Inl e \<Longrightarrow>
   convertTextToFofaQuery tm (Inr d) = Inl (Error (msg_llm_failed_prefix @ message_or_unknown e))"
  by (simp add: convertTextToFofaQuery_def and_then_def)

text \<open>
  C8. Whatever the remote call throws makes \<open>convertTextToFofaQuery\<close> throw one error whose
  message is \<open>msg_llm_failed_prefix\<close> followed by the message of the error caught, which
  for an error of the HTTP client (network, timeout, HTTP status) and for any other
  \<^verbatim>\<open>Error\<close> is its own message. A response envelope that has neither shape makes
  \<open>extractContent\<close> throw, and \<open>convertTextToFofaQuery\<close> throws the same kind of error
  carrying that message. In neither case is a result returned.
\<close>

theorem translation_failures_raised:
  "convertTextToFofaQuery tm (Inl e) = Inl (Error (msg_llm_failed_prefix @ message_or_unknown e))
   \<and> message_or_unknown (AxiosError status code m) = m
   \<and> message_or_unknown (Error m) = m
   \<and> (\<not> matches_candidates_shape d \<and> \<not> matches_choices_shape d \<longrightarrow>
        (\<exists>e'. extractContent tm d = Inl e' \<and>
              convertTextToFofaQuery tm (Inr d) =
                Inl (Error (msg_llm_failed_prefix @ message_or_unknown e'))))"
proof -
  have "\<exists>e'. extractContent tm d = Inl e' \<and>
          convertTextToFofaQuery tm (Inr d) =
            Inl (Error (msg_llm_failed_prefix @ message_or_unknown e'))"
    if "\<not> matches_candidates_shape d" "\<not> matches_choices_shape d"
  proof (cases "extractContent tm d")
    case (Inl e')
    then show ?thesis using convert_extract_failed by blast
  next
    case (Inr s)
    from extractContent_Inr [OF this] that show ?thesis by blast
  qed
  then show ?thesis using convert_thrown [of tm e] by simp
qed

theorem translation_failures_raised_witness:
  "\<not> matches_candidates_shape (Some (JObject [])) \<and> \<not> matches_choices_shape (Some (JObject []))
   \<and> convertTextToFofaQuery sample_tm (Inr (Some (JObject []))) =
       Inl (Error (msg_llm_failed_prefix @ msg_bad_format))
   \<and> \<not> matches_candidates_shape sample_broken_envelope
   \<and> \<not> matches_choices_shape sample_broken_envelope
   \<and> convertTextToFofaQuery sample_tm (Inr sample_broken_envelope) =
       Inl (Error (msg_llm_failed_prefix @ sample_tm None (asc ''parts'')))
   \<and> convertTextToFofaQuery sample_tm
         (Inl (AxiosError None (Some (asc ''ECONNABORTED'')) (asc ''timeout of 300000ms exceeded''))) =
       Inl (Error (msg_llm_failed_prefix @ asc ''timeout of 300000ms exceeded''))
   \<and> matches_choices_shape sample_envelope
   \<and> convertTextToFofaQuery sample_tm (Inr sample_envelope) =
       Inr \<lparr>raw_query = Some JNull, raw_explanation = Some (JString (asc ''too vague''))\<rparr>"
proof -
  have a: "\<not> matches_candidates_shape (Some (JObject []))" by code_simp
  have b: "\<not> matches_choices_shape (Some (JObject []))" by code_simp
  have c: "extractContent sample_tm (Some (JObject [])) = Inl (Error msg_bad_format)"
    by (simp add: extractContent_def has_first_def and_then_def read_key_def asc_def)
  have d: "\<not> matches_candidates_shape sample_broken_envelope" by code_simp
  have e: "\<not> matches_choices_shape sample_broken_envelope" by code_simp
  have f: "extractContent sample_tm sample_broken_envelope =
      Inl (Error (sample_tm None (asc ''parts'')))"
    by (simp add: extractContent_def has_first_def and_then_def read_key_def asc_def
        sample_broken_envelope_def candidates_path_def)
  have g: "matches_choices_shape sample_envelope" by code_simp
  have h: "convertTextToFofaQuery sample_tm (Inr sample_envelope) =
      Inr \<lparr>raw_query = Some JNull, raw_explanation = Some (JString (asc ''too vague''))\<rparr>"
    by code_simp
  have i: "convertTextToFofaQuery sample_tm (Inr (Some (JObject []))) =
      Inl (Error (msg_llm_failed_prefix @ msg_bad_format))"
    using a b c translation_failures_raised [of sample_tm _ _ _ _ "Some (JObject [])"] by auto
  have j: "convertTextToFofaQuery sample_tm (Inr sample_broken_envelope) =
      Inl (Error (msg_llm_failed_prefix @ sample_tm None (asc ''parts'')))"
    using d e f translation_failures_raised [of sample_tm _ _ _ _ sample_broken_envelope] by auto
  have k: "convertTextToFofaQuery sample_tm
         (Inl (AxiosError None (Some (asc ''ECONNABORTED'')) (asc ''timeout of 300000ms exceeded''))) =
       Inl (Error (msg_llm_failed_prefix @ asc ''timeout of 300000ms exceeded''))"
    using translation_failures_raised [of sample_tm
        "AxiosError None (Some (asc ''ECONNABORTED'')) (asc ''timeout of 300000ms exceeded'')"]
    by simp
  show ?thesis using a b d e g h i j k by blast
qed

section \<open>Properties of the search client\<close>

lemma search_messages_distinct:
  "distinct [msg_auth_failed, msg_access_denied, msg_timeout, msg_api_error]
   \<and> msg_invalid_query_prefix @ x \<noteq> msg_auth_failed
   \<and> msg_invalid_query_prefix @ x \<noteq> msg_access_denied
   \<and> msg_invalid_query_prefix @ x \<noteq> msg_timeout
   \<and> msg_invalid_query_prefix @ x \<noteq> msg_search_failed_prefix @ y
   \<and> msg_search_failed_prefix @ y \<noteq> msg_auth_failed
   \<and> msg_search_failed_prefix @ y \<noteq> msg_access_denied
   \<and> msg_search_failed_prefix @ y \<noteq> msg_timeout
   \<and> msg_search_failed_prefix @ y \<noteq> msg_api_error"
  by (simp add: msg_auth_failed_def msg_access_denied_def msg_timeout_def msg_api_error_def
      msg_invalid_query_prefix_def msg_search_failed_prefix_def)

lemma execute_invalid:
  "\<not> validateQuery query \<Longrightarrow>
   executeFofaQuery base64 axios_get config query size' page =
     (Inl (Error (msg_invalid_query_prefix @ query)), [])"
  by (simp add: executeFofaQuery_def)

lemma execute_requests:
  "validateQuery query \<Longrightarrow>
   snd (executeFofaQuery base64 axios_get config query size' page) =
     [request_params base64 config query size' page]"
  by (simp add: executeFofaQuery_def Let_def split: sum.splits)

lemma execute_thrown:
  "validateQuery query \<Longrightarrow>
   axios_get (request_params base64 config query size' page) = Inl e \<Longrightarrow>
   fst (executeFofaQuery base64 axios_get config query size' page) = Inl (search_catch e)"
  by (simp add: executeFofaQuery_def Let_def and_then_def)

lemma execute_flagged:
  "validateQuery query \<Longrightarrow>
   axios_get (request_params base64 config query size' page) = Inr response \<Longrightarrow>
   api_error response \<Longrightarrow>
   fst (executeFofaQuery base64 axios_get config query size' page) =
     Inl (Error (msg_search_failed_prefix @ msg_api_error))"
  by (simp add: executeFofaQuery_def Let_def and_then_def search_catch_def)

lemma execute_found:
  "validateQuery query \<Longrightarrow>
   axios_get (request_params base64 config query size' page) = Inr response \<Longrightarrow>
   \<not> api_error response \<Longrightarrow>
   fst (executeFofaQuery base64 axios_get config query size' page) =
     Inr (transformResults (results response))"
  by (simp add: executeFofaQuery_def Let_def and_then_def)

text \<open>
  C2. A set error flag in the payload does not yield the error whose message is
  \<open>msg_api_error\<close>: that error is thrown inside the \<^verbatim>\<open>try\<close> block, so the \<^verbatim>\<open>catch\<close>
  block of the same function receives it and throws the generic error that wraps its
  message.
\<close>

theorem api_error_flag_counterexample:
  "validateQuery (asc ''a=b'')
   \<and> flagged_service (request_params sample_base64 sample_config (asc ''a=b'') 100 1) =
       Inr \<lparr>api_error = True, results = None\<rparr>
   \<and> fst (executeFofaQuery sample_base64 flagged_service sample_config (asc ''a=b'') 100 1) =
       Inl (Error (msg_search_failed_prefix @ msg_api_error))
   \<and> fst (executeFofaQuery sample_base64 flagged_service sample_config (asc ''a=b'') 100 1) \<noteq>
       Inl (Error msg_api_error)"
proof -
  have v: "validateQuery (asc ''a=b'')" by code_simp
  have f: "flagged_service (request_params sample_base64 sample_config (asc ''a=b'') 100 1) =
       Inr \<lparr>api_error = True, results = None\<rparr>"
    by (simp add: flagged_service_def)
  have r: "fst (executeFofaQuery sample_base64 flagged_service sample_config (asc ''a=b'') 100 1) =
       Inl (Error (msg_search_failed_prefix @ msg_api_error))"
    using execute_flagged [of "asc ''a=b''" flagged_service sample_base64 sample_config 100 1, OF v f]
    by simp
  have "msg_search_failed_prefix @ msg_api_error \<noteq> msg_api_error"
    using search_messages_distinct by blast
  with v f r show ?thesis by simp
qed

text \<open>
  C2, amended. A query that fails validation makes \<open>executeFofaQuery\<close> throw the error whose
  message is \<open>msg_invalid_query_prefix\<close> followed by the query, and no request is sent. A
  valid query sends one request, and a failure is classified in this order: HTTP status
  401 gives \<open>msg_auth_failed\<close>; status 403 gives \<open>msg_access_denied\<close>; the code
  \<^verbatim>\<open>ECONNABORTED\<close> of a timeout gives \<open>msg_timeout\<close>; a set error flag in the payload of a
  successful response gives the generic error, \<open>msg_search_failed_prefix\<close> followed by
  \<open>msg_api_error\<close>; anything else gives the generic error wrapping the message of the error
  caught. A response without the flag gives the records. The fixed messages differ from
  one another and from every message with one of the two prefixes.
\<close>

theorem search_failures_classified:
  "(\<not> validateQuery query \<longrightarrow>
      executeFofaQuery base64 axios_get config query size' page =
        (Inl (Error (msg_invalid_query_prefix @ query)), []))
   \<and> (validateQuery query \<longrightarrow>
        snd (executeFofaQuery base64 axios_get config query size' page) =
          [request_params base64 config query size' page])
   \<and> (validateQuery query \<and>
       axios_get (request_params base64 config query size' page) =
         Inl (AxiosError (Some 401) code m) \<longrightarrow>
        fst (executeFofaQuery base64 axios_get config query size' page) =
          Inl (Error msg_auth_failed))
   \<and> (validateQuery query \<and>
       axios_get (request_params base64 config query size' page) =
         Inl (AxiosError (Some 403) code m) \<longrightarrow>
        fst (executeFofaQuery base64 axios_get config query size' page) =
          Inl (Error msg_access_denied))
   \<and> (validateQuery query \<and>
       axios_get (request_params base64 config query size' page) =
         Inl (AxiosError status (Some (asc ''ECONNABORTED'')) m) \<and>
       status \<noteq> Some 401 \<and> status \<noteq> Some 403 \<longrightarrow>
        fst (executeFofaQuery base64 axios_get config query size' page) =
          Inl (Error msg_timeout))
   \<and> (validateQuery query \<and>
       axios_get (request_params base64 config query size' page) = Inr response \<and>
       api_error response \<longrightarrow>
        fst (executeFofaQuery base64 axios_get config query size' page) =
          Inl (Error (msg_search_failed_prefix @ msg_api_error)))
   \<and> (validateQuery query \<and>
       axios_get (request_params base64 config query size' page) = Inl e \<and>
       (\<not> isAxiosError e \<or>
        (response_status e \<noteq> Some 401 \<and> response_status e \<noteq> Some 403 \<and>
         error_code e \<noteq> Some (asc ''ECONNABORTED''))) \<longrightarrow>
        fst (executeFofaQuery base64 axios_get config query size' page) =
          Inl (Error (msg_search_failed_prefix @ message_or_unknown e)))
   \<and> (validateQuery query \<and>
       axios_get (request_params base64 config query size' page) = Inr response \<and>
       \<not> api_error response \<longrightarrow>
        fst (executeFofaQuery base64 axios_get config query size' page) =
          Inr (transformResults (results response)))
   \<and> distinct [msg_auth_failed, msg_access_denied, msg_timeout]
   \<and> (\<forall>x y. msg_invalid_query_prefix @ x \<notin> {msg_auth_failed, msg_access_denied, msg_timeout}
          \<and> msg_search_failed_prefix @ y \<notin> {msg_auth_failed, msg_access_denied, msg_timeout}
          \<and> msg_invalid_query_prefix @ x \<noteq> msg_search_failed_prefix @ y)"
proof -
  note ex = execute_thrown [of query axios_get base64 config size' page]
  have c401: "search_catch (AxiosError (Some 401) code m) = Error msg_auth_failed"
    by (simp add: search_catch_def)
  have c403: "search_catch (AxiosError (Some 403) code m) = Error msg_access_denied"
    by (simp add: search_catch_def)
  have cto: "status \<noteq> Some 401 \<Longrightarrow> status \<noteq> Some 403 \<Longrightarrow>
      search_catch (AxiosError status (Some (asc ''ECONNABORTED'')) m) = Error msg_timeout"
    by (simp add: search_catch_def)
  have cother: "\<not> isAxiosError e \<or>
        (response_status e \<noteq> Some 401 \<and> response_status e \<noteq> Some 403 \<and>
         error_code e \<noteq> Some (asc ''ECONNABORTED'')) \<Longrightarrow>
      search_catch e = Error (msg_search_failed_prefix @ message_or_unknown e)"
    by (auto simp: search_catch_def)
  have d: "distinct [msg_auth_failed, msg_access_denied, msg_timeout]"
    using search_messages_distinct by simp
  have d2: "\<forall>x y. msg_invalid_query_prefix @ x \<notin> {msg_auth_failed, msg_access_denied, msg_timeout}
          \<and> msg_search_failed_prefix @ y \<notin> {msg_auth_failed, msg_access_denied, msg_timeout}
          \<and> msg_invalid_query_prefix @ x \<noteq> msg_search_failed_prefix @ y"
    using search_messages_distinct by simp
  show ?thesis
    using execute_invalid [of query base64 axios_get config size' page]
      execute_requests [of query base64 axios_get config size' page]
      execute_flagged [of query axios_get base64 config size' page response]
      execute_found [of query axios_get base64 config size' page response]
      ex c401 c403 cto cother d d2
    by (intro conjI impI) (simp_all del: distinct.simps)
qed

theorem search_failures_classified_witness:
  "\<not> validateQuery (asc ''(a=b'')
   \<and> executeFofaQuery sample_base64 flagged_service sample_config (asc ''(a=b'') 100 1 =
       (Inl (Error (msg_invalid_query_prefix @ asc ''(a=b'')), [])
   \<and> validateQuery (asc ''a=b'')
   \<and> executeFofaQuery sample_base64 unauthorized_service sample_config (asc ''a=b'') 100 1 =
       (Inl (Error msg_auth_failed), [request_params sample_base64 sample_config (asc ''a=b'') 100 1])
   \<and> executeFofaQuery sample_base64 flagged_service sample_config (asc ''a=b'') 100 1 =
       (Inl (Error (msg_search_failed_prefix @ msg_api_error)),
        [request_params sample_base64 sample_config (asc ''a=b'') 100 1])
   \<and> fst (executeFofaQuery sample_base64 one_row_service sample_config (asc ''a=b'') 100 1) =
       Inr [\<lparr>ip = asc ''1.2.3.4'', port = asc ''80'', title = [], host = []\<rparr>]"
proof -
  have nv: "\<not> validateQuery (asc ''(a=b'')" by code_simp
  have v: "validateQuery (asc ''a=b'')" by code_simp
  have u: "unauthorized_service (request_params sample_base64 sample_config (asc ''a=b'') 100 1) =
      Inl (AxiosError (Some 401) (Some (asc ''ERR_BAD_REQUEST''))
            (asc ''Request failed with status code 401''))"
    by (simp add: unauthorized_service_def)
  have f: "flagged_service (request_params sample_base64 sample_config (asc ''a=b'') 100 1) =
      Inr \<lparr>api_error = True, results = None\<rparr>"
    by (simp add: flagged_service_def)
  have a: "executeFofaQuery sample_base64 flagged_service sample_config (asc ''(a=b'') 100 1 =
       (Inl (Error (msg_invalid_query_prefix @ asc ''(a=b'')), [])"
    using nv search_failures_classified [of "asc ''(a=b''" sample_base64 flagged_service
        sample_config 100 1]
    by blast
  have b: "executeFofaQuery sample_base64 unauthorized_service sample_config (asc ''a=b'') 100 1 =
       (Inl (Error msg_auth_failed), [request_params sample_base64 sample_config (asc ''a=b'') 100 1])"
    using v u search_failures_classified [of "asc ''a=b''" sample_base64 unauthorized_service
        sample_config 100 1 "Some (asc ''ERR_BAD_REQUEST'')"
        "asc ''Request failed with status code 401''"]
    by (simp add: prod_eq_iff)
  have c: "executeFofaQuery sample_base64 flagged_service sample_config (asc ''a=b'') 100 1 =
       (Inl (Error (msg_search_failed_prefix @ msg_api_error)),
        [request_params sample_base64 sample_config (asc ''a=b'') 100 1])"
    using v f search_failures_classified [of "asc ''a=b''" sample_base64 flagged_service
        sample_config 100 1 _ _ _ "\<lparr>api_error = True, results = None\<rparr>"]
    by (simp add: prod_eq_iff)
  have o: "one_row_service (request_params sample_base64 sample_config (asc ''a=b'') 100 1) =
      Inr \<lparr>api_error = False, results = Some [[asc ''1.2.3.4'', asc ''80'']]\<rparr>"
    by (simp add: one_row_service_def)
  have d: "fst (executeFofaQuery sample_base64 one_row_service sample_config (asc ''a=b'') 100 1) =
       Inr [\<lparr>ip = asc ''1.2.3.4'', port = asc ''80'', title = [], host = []\<rparr>]"
    using v o search_failures_classified [of "asc ''a=b''" sample_base64 one_row_service
        sample_config 100 1 _ _ _
        "\<lparr>api_error = False, results = Some [[asc ''1.2.3.4'', asc ''80'']]\<rparr>"]
    by (simp add: transformResults_def element_or_empty_def)
  show ?thesis using nv v a b c d by blast
qed

section \<open>Properties of the orchestrator\<close>























end
